theory Spec2Isabelle
  imports Main "HOL-Library.Word" "HOL-Library.Sublist"
begin

section \<open>JavaScript strings\<close>

text \<open>
  A JavaScript string is a sequence of UTF-16 code units; \<open>length\<close>, \<open>slice\<close>,
  \<open>includes\<close>, \<open>startsWith\<close> and \<open>===\<close> all work on code units. The model keeps
  that: a string is a list of 16-bit words. \<open>js\<close> turns an ASCII literal of the source
  into its code units; characters outside ASCII (the emoji of the canned answers) are
  written as their surrogate pairs.
\<close>

type_synonym jsstring = "16 word list"

definition js :: "string \<Rightarrow> jsstring" where
  "js s = map of_char s"

text \<open>\<open>s.includes(t)\<close>: \<open>t\<close> occurs in \<open>s\<close> as a contiguous run of code units.\<close>

fun includes_str :: "jsstring \<Rightarrow> jsstring \<Rightarrow> bool" where
  "includes_str [] t = (t = [])"
| "includes_str (c # s) t = (prefix t (c # s) \<or> includes_str s t)"

text \<open>\<open>s.startsWith(t)\<close>.\<close>

definition startsWith :: "jsstring \<Rightarrow> jsstring \<Rightarrow> bool" where
  "startsWith s t = prefix t s"

text \<open>
  \<open>s.trim()\<close> removes the white space and line terminators of ECMAScript from both
  ends: TAB, LF, VT, FF, CR, SP, NBSP, U+1680, U+2000 to U+200A, U+2028, U+2029, U+202F,
  U+205F, U+3000 and U+FEFF.
\<close>

definition isWhiteSpace :: "16 word \<Rightarrow> bool" where
  "isWhiteSpace c \<longleftrightarrow>
     c = 0x9 \<or> c = 0xA \<or> c = 0xB \<or> c = 0xC \<or> c = 0xD \<or> c = 0x20 \<or> c = 0xA0 \<or>
     c = 0x1680 \<or> (0x2000 \<le> c \<and> c \<le> 0x200A) \<or> c = 0x2028 \<or> c = 0x2029 \<or>
     c = 0x202F \<or> c = 0x205F \<or> c = 0x3000 \<or> c = 0xFEFF"

definition trim :: "jsstring \<Rightarrow> jsstring" where
  "trim s = rev (dropWhile isWhiteSpace (rev (dropWhile isWhiteSpace s)))"

text \<open>
  \<open>s.toLowerCase()\<close> is the case mapping of the JavaScript engine, over all of
  Unicode. It is a built-in of the host, not code of this repository, and it is not
  written out here: every function below that lower-cases takes the mapping as an
  argument, named \<open>toLowerCase\<close>, and what is proved of such a function is proved for
  every mapping, so for the engine's.

  The worked examples need a mapping to run. They pass \<open>toLowerCaseLatin1\<close>, the
  engine's mapping on strings whose code units are all below U+0100: the letters A to Z
  and the capital letters of Latin-1 (U+00C0 to U+00DE without the multiplication sign
  U+00D7) move up by 32 and every other unit stays. Each worked example applies it to
  ASCII strings only.
\<close>

definition lowerUnit :: "16 word \<Rightarrow> 16 word" where
  "lowerUnit c =
     (if (0x41 \<le> c \<and> c \<le> 0x5A) \<or> (0xC0 \<le> c \<and> c \<le> 0xDE \<and> c \<noteq> 0xD7)
      then c + 0x20 else c)"

definition toLowerCaseLatin1 :: "jsstring \<Rightarrow> jsstring" where
  "toLowerCaseLatin1 s = map lowerUnit s"

section \<open>Configuration (config.js)\<close>

datatype tier = development | production

text \<open>The immediately invoked function of \<open>CONFIG.environment\<close>, on \<open>window.location.hostname\<close>.\<close>

definition environment :: "jsstring \<Rightarrow> tier" where
  "environment hostname =
     (if includes_str hostname (js ''github.io'') \<or> includes_str hostname (js ''githubusercontent.com'')
      then production
      else if hostname = js ''localhost'' \<or> hostname = js ''127.0.0.1''
      then development
      else production)"

text \<open>\<open>CONFIG.claude.models\<close> and \<open>CONFIG.claude.maxTokens\<close>, indexed by the tier.\<close>

fun models :: "tier \<Rightarrow> jsstring" where
  "models development = js ''claude-3-haiku-20240307''"
| "models production = js ''claude-3-sonnet-20240229''"

fun maxTokens :: "tier \<Rightarrow> nat" where
  "maxTokens development = 500"
| "maxTokens production = 1000"

text \<open>
  The two places a credential can come from: \<open>window.CLAUDE_API_KEY\<close> and
  \<open>process.env.CLAUDE_API_KEY\<close>; \<open>None\<close> is \<open>undefined\<close>. The model is of a host
  where \<open>process.env\<close> exists.
\<close>

record credential_sources =
  window_CLAUDE_API_KEY :: "jsstring option"
  process_env_CLAUDE_API_KEY :: "jsstring option"

text \<open>A string is truthy when it is not empty; \<open>undefined\<close> is falsy.\<close>

fun truthy :: "jsstring option \<Rightarrow> bool" where
  "truthy None = False"
| "truthy (Some s) = (s \<noteq> [])"

text \<open>
  \<open>window.CLAUDE_API_KEY || process.env.CLAUDE_API_KEY || null\<close>: the getter
  \<open>CONFIG.claude.apiKey\<close> of config.js, and the initial value of the field of the same
  name in the older script.
\<close>

definition apiKey :: "credential_sources \<Rightarrow> jsstring option" where
  "apiKey src =
     (if truthy (window_CLAUDE_API_KEY src) then window_CLAUDE_API_KEY src
      else if truthy (process_env_CLAUDE_API_KEY src) then process_env_CLAUDE_API_KEY src
      else None)"

text \<open>
  The older script validates once, at load time, and overwrites the field:
  \<^verbatim>\<open>if (CONFIG.claude.apiKey && !CONFIG.claude.apiKey.startsWith('sk-ant-')) {
    console.warn(...); CONFIG.claude.apiKey = null; }\<close>
  \<open>validated_apiKey\<close> is the value of the field after that statement.
\<close>

definition validated_apiKey :: "credential_sources \<Rightarrow> jsstring option" where
  "validated_apiKey src =
     (case apiKey src of
        None \<Rightarrow> None
      | Some k \<Rightarrow> if k \<noteq> [] \<and> \<not> startsWith k (js ''sk-ant-'') then None else Some k)"

text \<open>
  config.js validates in a function that returns a flag and writes to the console; the
  getter is left alone. The console lines are kept as values.
\<close>

datatype console_line =
  WarnInvalidKeyFormat
| LogAppConfiguration tier bool jsstring jsstring

text \<open>\<open>keyPreview\<close>: the first 12 code units and three dots, or \<open>None\<close>.\<close>

definition keyPreview :: "jsstring option \<Rightarrow> jsstring" where
  "keyPreview k = (if truthy k then take 12 (the k) @ js ''...'' else js ''None'')"

definition validateAndLogConfig ::
  "tier \<Rightarrow> bool \<Rightarrow> credential_sources \<Rightarrow> console_line list \<times> bool" where
  "validateAndLogConfig env debugMode src =
     (let k = apiKey src in
      if truthy k \<and> \<not> startsWith (the k) (js ''sk-ant-'') then ([WarnInvalidKeyFormat], False)
      else
        ((if debugMode \<or> env = production
          then [LogAppConfiguration env (truthy k) (keyPreview k) (models env)]
          else []),
         truthy k))"

section \<open>The assistant (the integration guide)\<close>

subsection \<open>Input sanitization and response filtering\<close>

text \<open>
  \<^verbatim>\<open>input.replace(/[<>]/g, '').trim().slice(0, 2000)\<close>: every \<open><\<close> (U+003C) and
  \<open>>\<close> (U+003E) is removed, the result trimmed, and its first 2000 code units kept.
\<close>

definition sanitizeInput :: "jsstring \<Rightarrow> jsstring" where
  "sanitizeInput input = take 2000 (trim (filter (\<lambda>c. c \<noteq> 0x3C \<and> c \<noteq> 0x3E) input))"

definition validateResponse :: "jsstring \<Rightarrow> jsstring" where
  "validateResponse response =
     (if length response > 5000
      then js ''Response was too long. Please ask a more specific question.''
      else response)"

subsection \<open>Rate limiting\<close>

text \<open>
  \<open>ClaudeAIService.rateLimitTracker\<close>. Times are the integer milliseconds of
  \<open>Date.now()\<close>.
\<close>

record rate_limit_tracker =
  requests :: int
  lastReset :: int
  maxRequests :: int

text \<open>What a \<open>throw\<close> inside \<open>sendMessage\<close> can carry.\<close>

datatype js_error =
  RateLimitExceeded
| ClaudeApiError nat jsstring
| FetchRejected
| JsonSyntaxError
| TypeError

definition oneMinute :: int where
  "oneMinute = 60 * 1000"

text \<open>
  \<open>checkRateLimit\<close> with the clock reading \<open>now\<close>. It returns normally (\<open>Inr ()\<close>) or
  throws (\<open>Inl\<close>); the tracker it leaves behind is the second component in both cases,
  since a reset done before the \<open>throw\<close> stays.
\<close>

definition checkRateLimit ::
  "int \<Rightarrow> rate_limit_tracker \<Rightarrow> (js_error + unit) \<times> rate_limit_tracker" where
  "checkRateLimit now t =
     (let t1 = (if now - lastReset t > oneMinute
                then t\<lparr>requests := 0, lastReset := now\<rparr>
                else t)
      in if requests t1 \<ge> maxRequests t1
         then (Inl RateLimitExceeded, t1)
         else (Inr (), t1\<lparr>requests := requests t1 + 1\<rparr>))"

text \<open>An attempt is permitted when \<open>checkRateLimit\<close> returns, denied when it throws.\<close>

fun permitted :: "js_error + unit \<Rightarrow> bool" where
  "permitted (Inl e) = False"
| "permitted (Inr u) = True"

text \<open>
  A run of attempts at the given clock readings, each on the tracker the one before
  left: the list says which attempts were permitted.
\<close>

fun attempts :: "int list \<Rightarrow> rate_limit_tracker \<Rightarrow> bool list \<times> rate_limit_tracker" where
  "attempts [] t = ([], t)"
| "attempts (now # nows) t =
     (case checkRateLimit now t of
        (r, t') \<Rightarrow> (case attempts nows t' of (rs, t'') \<Rightarrow> (permitted r # rs, t'')))"

subsection \<open>Response cache\<close>

text \<open>
  A JavaScript \<open>Map\<close> keeps its entries in insertion order: a list of pairs with
  distinct keys. \<open>set\<close> on a key that is present replaces the value where it stands;
  on a new key it appends.
\<close>

type_synonym 'v js_map = "(jsstring \<times> 'v) list"

fun Map_set :: "jsstring \<Rightarrow> 'v \<Rightarrow> 'v js_map \<Rightarrow> 'v js_map" where
  "Map_set k v [] = [(k, v)]"
| "Map_set k v (e # m) = (if fst e = k then (k, v) # m else e # Map_set k v m)"

definition Map_get :: "jsstring \<Rightarrow> 'v js_map \<Rightarrow> 'v option" where
  "Map_get k m = map_of m k"

definition Map_delete :: "jsstring \<Rightarrow> 'v js_map \<Rightarrow> 'v js_map" where
  "Map_delete k m = filter (\<lambda>e. fst e \<noteq> k) m"

definition cacheKey :: "(jsstring \<Rightarrow> jsstring) \<Rightarrow> jsstring \<Rightarrow> jsstring" where
  "cacheKey toLowerCase userMessage = trim (toLowerCase userMessage)"

definition getCachedResponse ::
  "(jsstring \<Rightarrow> jsstring) \<Rightarrow> 'v js_map \<Rightarrow> jsstring \<Rightarrow> 'v option" where
  "getCachedResponse toLowerCase responseCache userMessage =
     Map_get (cacheKey toLowerCase userMessage) responseCache"

text \<open>
  \<open>responseCache.keys().next().value\<close> is the key of the first entry; the branch is
  only taken on a map of more than 100 entries, which has one.
\<close>

definition setCachedResponse ::
  "(jsstring \<Rightarrow> jsstring) \<Rightarrow> 'v js_map \<Rightarrow> jsstring \<Rightarrow> 'v \<Rightarrow> 'v js_map" where
  "setCachedResponse toLowerCase responseCache userMessage response =
     (let c = Map_set (cacheKey toLowerCase userMessage) response responseCache
      in if length c > 100
         then (case c of [] \<Rightarrow> c | (firstKey, _) # _ \<Rightarrow> Map_delete firstKey c)
         else c)"

text \<open>A run of insertions, each on the cache the one before left.\<close>

definition setCachedResponses ::
  "(jsstring \<Rightarrow> jsstring) \<Rightarrow> 'v js_map \<Rightarrow> (jsstring \<times> 'v) list \<Rightarrow> 'v js_map" where
  "setCachedResponses toLowerCase responseCache puts =
     foldl (\<lambda>c p. setCachedResponse toLowerCase c (fst p) (snd p)) responseCache puts"

subsection \<open>Fallback answers\<close>

datatype source = claude | fallback | error | unknown

datatype action =
  FilterAction jsstring "jsstring list"
| SearchAction jsstring
| OtherAction

text \<open>
  The object \<open>getAIResponse\<close> resolves to. \<open>None\<close> in \<open>message\<close> or \<open>source\<close> is
  \<open>undefined\<close>.
\<close>

record aiResponse =
  message :: "jsstring option"
  actions :: "action list"
  source :: "source option"

text \<open>
  The two canned answers. The guide writes them with doubled backslashes; they are read
  here as the escapes they stand for, a line feed (U+000A) and a double quote. The emoji
  are surrogate pairs.
\<close>

definition navigationAnswer :: jsstring where
  "navigationAnswer =
     js ''I can help you navigate the dashboard! Here are the main areas:'' @ [0xA, 0xA]
     @ [0xD83D, 0xDCCA]
     @ js '' **Left Sidebar**: Filter resources by programs, topics, authors, file types, and more''
     @ [0xA] @ [0xD83D, 0xDCCB]
     @ js '' **Main Area**: Browse resource cards with download links''
     @ [0xA] @ [0xD83D, 0xDCC8]
     @ js '' **Right Sidebar**: View quick stats and recent activity'' @ [0xA, 0xA]
     @ js ''What would you like to explore?''"

definition defaultAnswer :: jsstring where
  "defaultAnswer =
     js ''I can help you search! Try asking me:'' @ [0xA, 0xA]
     @ [0xD83D, 0xDD0D] @ js '' \"Find resources about data quality\"''
     @ [0xA] @ [0xD83D, 0xDCC1] @ js '' \"Show me Excel files\"''
     @ [0xA] @ [0xD83C, 0xDFE2] @ js '' \"What's available from GovEx?\"''
     @ [0xA] @ [0xD83D, 0xDC65] @ js '' \"Resources by author name\"'' @ [0xA, 0xA]
     @ js ''What are you looking for?''"

text \<open>
  \<open>getFallbackResponse\<close> as the guide gives it: the navigation pattern, then the
  default. The guide leaves the other patterns of the page to the reader
  (\<open>[Include other existing response patterns here...]\<close>).
\<close>

definition getFallbackResponse :: "(jsstring \<Rightarrow> jsstring) \<Rightarrow> jsstring \<Rightarrow> aiResponse" where
  "getFallbackResponse toLowerCase userMessage =
     (let message = toLowerCase userMessage
      in if includes_str message (js ''navigate'') \<or> includes_str message (js ''how to use'')
            \<or> includes_str message (js ''help'')
         then \<lparr>message = Some navigationAnswer, actions = [], source = Some fallback\<rparr>
         else \<lparr>message = Some defaultAnswer, actions = [], source = Some fallback\<rparr>)"

subsection \<open>The upstream call\<close>

text \<open>
  \<open>CLAUDE_API_CONFIG\<close>. \<open>API_KEY\<close> is \<open>None\<close> when no credential resolved
  (\<open>null\<close>). \<open>TEMPERATURE\<close>, a floating-point constant, is left out.
\<close>

record CLAUDE_API_CONFIG =
  API_KEY :: "jsstring option"
  API_URL :: jsstring
  MODEL :: jsstring
  MAX_TOKENS :: nat

text \<open>
  What \<open>sendMessage\<close> hands to \<open>fetch\<close>: the address, the \<open>x-api-key\<close> header, and
  the model, token budget and user message of the body. The system prompt that
  \<open>buildSystemPrompt\<close> derives from the catalogue is not kept: no property below reads it.
\<close>

record request =
  url :: jsstring
  x_api_key :: "jsstring option"
  model :: jsstring
  max_tokens :: nat
  content :: jsstring

text \<open>
  What comes back is not decided by the program, so every call takes the outcome of its
  \<open>fetch\<close> as an input. The promise is rejected (no connection), or resolves to a
  response with a status; its body is not JSON, or is an object whose \<open>content\<close> is
  missing or a list of blocks, each with or without a \<open>text\<close>.
\<close>

datatype content_block = Block "jsstring option"

datatype response_json = NotJson | Data "content_block list option"

record http_response =
  ok :: bool
  status :: nat
  statusText :: jsstring
  json :: response_json

datatype fetch_outcome = Rejected | Resolved http_response

text \<open>
  Lines 70 to 76 of the guide, after \<open>fetch\<close>: \<open>throw\<close> on a status that is not ok,
  \<open>response.json()\<close>, then \<open>data.content[0].text\<close>, which throws a \<open>TypeError\<close> when
  \<open>content\<close> is missing or empty and is \<open>undefined\<close> when the block has no text.
\<close>

fun data_content_0_text :: "response_json \<Rightarrow> js_error + jsstring option" where
  "data_content_0_text NotJson = Inl JsonSyntaxError"
| "data_content_0_text (Data None) = Inl TypeError"
| "data_content_0_text (Data (Some [])) = Inl TypeError"
| "data_content_0_text (Data (Some (Block t # blocks))) = Inr t"

fun answer_of :: "fetch_outcome \<Rightarrow> js_error + jsstring option" where
  "answer_of Rejected = Inl FetchRejected"
| "answer_of (Resolved response) =
     (if \<not> ok response then Inl (ClaudeApiError (status response) (statusText response))
      else data_content_0_text (json response))"

text \<open>
  The state of the page that outlives a call: the tracker, the cache, and a record of
  the requests handed to \<open>fetch\<close> so far, oldest first.
\<close>

record 'v assistant_state =
  rateLimitTracker :: rate_limit_tracker
  responseCache :: "'v js_map"
  sent :: "request list"

text \<open>
  What one call reads from outside: the clock when the user's message is built, the clock
  inside \<open>checkRateLimit\<close>, the outcome of the \<open>fetch\<close> if one is made, and the clock when
  the reply is built.
\<close>

record world =
  clock_user :: int
  clock_limit :: int
  upstream :: fetch_outcome
  clock_bot :: int

text \<open>The object \<open>sendMessage\<close> resolves to; \<open>fallback\<close> is absent on success.\<close>

record sendMessage_result =
  sm_message :: "jsstring option"
  sm_success :: bool
  sm_fallback :: bool

definition sendMessage_failed :: sendMessage_result where
  "sendMessage_failed =
     \<lparr>sm_message = Some (js ''I'm having trouble connecting to my AI services right now. Let me try to help you with my basic knowledge instead.''),
      sm_success = False, sm_fallback = True\<rparr>"

definition request_of :: "CLAUDE_API_CONFIG \<Rightarrow> jsstring \<Rightarrow> request" where
  "request_of cfg userMessage =
     \<lparr>url = API_URL cfg, x_api_key = API_KEY cfg, model = MODEL cfg,
      max_tokens = MAX_TOKENS cfg, content = userMessage\<rparr>"

text \<open>
  \<open>sendMessage\<close> with the rate limit of step 7: \<open>checkRateLimit\<close> first, then the body
  of step 2, all inside one \<open>try\<close> whose \<open>catch\<close> returns the failure object.
\<close>

definition sendMessage ::
  "CLAUDE_API_CONFIG \<Rightarrow> world \<Rightarrow> 'v assistant_state \<Rightarrow> jsstring
   \<Rightarrow> sendMessage_result \<times> 'v assistant_state" where
  "sendMessage cfg w st userMessage =
     (case checkRateLimit (clock_limit w) (rateLimitTracker st) of
        (Inl e, t) \<Rightarrow> (sendMessage_failed, st\<lparr>rateLimitTracker := t\<rparr>)
      | (Inr u, t) \<Rightarrow>
          (let st' = st\<lparr>rateLimitTracker := t, sent := sent st @ [request_of cfg userMessage]\<rparr>
           in case answer_of (upstream w) of
                Inl e \<Rightarrow> (sendMessage_failed, st')
              | Inr text \<Rightarrow> (\<lparr>sm_message = text, sm_success = True, sm_fallback = False\<rparr>, st')))"

definition getAIResponse ::
  "(jsstring \<Rightarrow> jsstring) \<Rightarrow> CLAUDE_API_CONFIG \<Rightarrow> world \<Rightarrow> 'v assistant_state \<Rightarrow> jsstring
   \<Rightarrow> aiResponse \<times> 'v assistant_state" where
  "getAIResponse toLowerCase cfg w st userMessage =
     (case sendMessage cfg w st userMessage of
        (claudeResponse, st') \<Rightarrow>
          if sm_success claudeResponse
          then (\<lparr>message = sm_message claudeResponse, actions = [], source = Some claude\<rparr>, st')
          else (getFallbackResponse toLowerCase userMessage, st'))"

subsection \<open>The chat handler\<close>

datatype chat_type = user_type | bot_type

record chat_message =
  chat_id :: int
  chat_type :: chat_type
  chat_text :: "jsstring option"
  chat_timestamp :: int
  chat_source :: "source option"

record ui_state =
  messages :: "chat_message list"
  inputMessage :: jsstring
  isTyping :: bool
  selectedFilters :: "jsstring \<rightharpoonup> jsstring list"
  searchQuery :: jsstring

fun run_action :: "ui_state \<Rightarrow> action \<Rightarrow> ui_state" where
  "run_action ui (FilterAction f values) = ui\<lparr>selectedFilters := (selectedFilters ui)(f \<mapsto> values)\<rparr>"
| "run_action ui (SearchAction query) = ui\<lparr>searchQuery := query\<rparr>"
| "run_action ui OtherAction = ui"

definition errorAnswer :: jsstring where
  "errorAnswer = js ''I'm sorry, I encountered an error while processing your request. Please try again or rephrase your question.''"

text \<open>
  The part of \<open>handleSendMessage\<close> after the \<open>await\<close>: the rest of the \<open>try\<close> block when
  the promise was fulfilled (\<open>Inr\<close>), the \<open>catch\<close> block when it was rejected (\<open>Inl\<close>),
  then \<open>finally\<close>. \<open>aiResponse.source || 'unknown'\<close> replaces a missing source.
\<close>

definition handleSendMessage_reply :: "int \<Rightarrow> js_error + aiResponse \<Rightarrow> ui_state \<Rightarrow> ui_state" where
  "handleSendMessage_reply now awaited ui =
     (case awaited of
        Inr r \<Rightarrow>
          (let botMessage =
                 \<lparr>chat_id = now + 1, chat_type = bot_type, chat_text = message r,
                  chat_timestamp = now,
                  chat_source = (case source r of None \<Rightarrow> Some unknown | Some s \<Rightarrow> Some s)\<rparr>
           in foldl run_action (ui\<lparr>messages := messages ui @ [botMessage]\<rparr>) (actions r))
      | Inl e \<Rightarrow>
          (let errorMessage =
                 \<lparr>chat_id = now + 1, chat_type = bot_type, chat_text = Some errorAnswer,
                  chat_timestamp = now, chat_source = Some error\<rparr>
           in ui\<lparr>messages := messages ui @ [errorMessage]\<rparr>))
     \<lparr>isTyping := False\<rparr>"

text \<open>
  \<open>handleSendMessage\<close> on the state of the page. The message passed on is the value of
  \<open>inputMessage\<close> when the handler started, not the cleared one.
\<close>

definition handleSendMessage ::
  "(jsstring \<Rightarrow> jsstring) \<Rightarrow> CLAUDE_API_CONFIG \<Rightarrow> world
   \<Rightarrow> ui_state \<times> 'v assistant_state \<Rightarrow> ui_state \<times> 'v assistant_state" where
  "handleSendMessage toLowerCase cfg w s =
     (case s of (ui, st) \<Rightarrow>
       if trim (inputMessage ui) = [] then (ui, st)
       else
         (let userMessage =
                \<lparr>chat_id = clock_user w, chat_type = user_type, chat_text = Some (inputMessage ui),
                 chat_timestamp = clock_user w, chat_source = None\<rparr>;
              ui1 = ui\<lparr>messages := messages ui @ [userMessage], inputMessage := [], isTyping := True\<rparr>
          in case getAIResponse toLowerCase cfg w st (inputMessage ui) of
               (r, st') \<Rightarrow> (handleSendMessage_reply (clock_bot w) (Inr r) ui1, st')))"

subsection \<open>Inputs for the worked examples\<close>


abbreviation config_with_key :: CLAUDE_API_CONFIG where
  "config_with_key \<equiv>
     \<lparr>API_KEY = Some (js ''sk-ant-key''), API_URL = js ''https://api.anthropic.com/v1/messages'',
      MODEL = js ''claude-3-sonnet-20240229'', MAX_TOKENS = 1000\<rparr>"

abbreviation fresh_state :: "jsstring assistant_state" where
  "fresh_state \<equiv>
     \<lparr>rateLimitTracker = \<lparr>requests = 0, lastReset = 0, maxRequests = 60\<rparr>,
      responseCache = [], sent = []\<rparr>"

abbreviation call_with :: "fetch_outcome \<Rightarrow> world" where
  "call_with outcome \<equiv>
     \<lparr>clock_user = 5000, clock_limit = 5001, upstream = outcome, clock_bot = 5300\<rparr>"

abbreviation unauthorized :: fetch_outcome where
  "unauthorized \<equiv>
     Resolved \<lparr>ok = False, status = 401, statusText = js ''Unauthorized'', json = NotJson\<rparr>"

abbreviation answering :: "jsstring \<Rightarrow> fetch_outcome" where
  "answering text \<equiv>
     Resolved \<lparr>ok = True, status = 200, statusText = js ''OK'',
               json = Data (Some [Block (Some text)])\<rparr>"

abbreviation empty_page :: "jsstring \<Rightarrow> ui_state" where
  "empty_page input \<equiv>
     \<lparr>messages = [], inputMessage = input, isTyping = False,
      selectedFilters = Map.empty, searchQuery = []\<rparr>"

section \<open>Environment detection\<close>

text \<open>
  C10. A host name that contains neither \<open>github.io\<close> nor \<open>githubusercontent.com\<close>
  and is neither \<open>localhost\<close> nor \<open>127.0.0.1\<close> resolves to the production tier: the
  production model and the production token budget.
\<close>

theorem unknown_host_is_production:
  assumes "\<not> includes_str hostname (js ''github.io'')"
    and "\<not> includes_str hostname (js ''githubusercontent.com'')"
    and "hostname \<noteq> js ''localhost''"
    and "hostname \<noteq> js ''127.0.0.1''"
  shows "environment hostname = production
       \<and> models (environment hostname) = js ''claude-3-sonnet-20240229''
       \<and> maxTokens (environment hostname) = 1000"
  using assms by (simp add: environment_def)

theorem unknown_host_is_production_witness:
  "\<not> includes_str (js ''example.com'') (js ''github.io'')
   \<and> \<not> includes_str (js ''example.com'') (js ''githubusercontent.com'')
   \<and> js ''example.com'' \<noteq> js ''localhost''
   \<and> js ''example.com'' \<noteq> js ''127.0.0.1''
   \<and> environment (js ''example.com'') = production
   \<and> models (environment (js ''example.com'')) = js ''claude-3-sonnet-20240229''
   \<and> maxTokens (environment (js ''example.com'')) = 1000"
  using unknown_host_is_production [of "js ''example.com''"]
  by (simp add: js_def)

section \<open>Input sanitization\<close>

lemma trim_decomp:
  "s = takeWhile isWhiteSpace s @ trim s @ rev (takeWhile isWhiteSpace (rev (dropWhile isWhiteSpace s)))"
proof -
  let ?d = "dropWhile isWhiteSpace s"
  have "rev (takeWhile isWhiteSpace (rev ?d) @ dropWhile isWhiteSpace (rev ?d))
        = rev (dropWhile isWhiteSpace (rev ?d)) @ rev (takeWhile isWhiteSpace (rev ?d))"
    by (rule rev_append)
  then have "rev (rev ?d) = trim s @ rev (takeWhile isWhiteSpace (rev ?d))"
    by (simp only: takeWhile_dropWhile_id trim_def)
  then have "?d = trim s @ rev (takeWhile isWhiteSpace (rev ?d))"
    by (simp only: rev_rev_ident)
  moreover have "s = takeWhile isWhiteSpace s @ ?d"
    by simp
  ultimately show ?thesis
    by metis
qed

lemma trim_subseq: "subseq (trim s) s"
proof -
  have "subseq (trim s)
          (takeWhile isWhiteSpace s @ trim s
             @ rev (takeWhile isWhiteSpace (rev (dropWhile isWhiteSpace s))))"
    by (intro subseq_drop_many subseq_rev_drop_many) simp
  then show ?thesis
    using trim_decomp [of s] by simp
qed

lemma trim_hd:
  assumes ne: "trim s \<noteq> []"
  shows "\<not> isWhiteSpace (hd (trim s))"
proof -
  let ?d = "dropWhile isWhiteSpace s"
  have "dropWhile isWhiteSpace (rev ?d) \<noteq> []"
    using ne by (simp add: trim_def)
  then have d: "?d \<noteq> []"
    by (metis dropWhile.simps(1) rev.simps(1))
  have white: "\<not> isWhiteSpace (hd ?d)"
    using d by (rule hd_dropWhile)
  have "takeWhile isWhiteSpace s @ ?d
        = takeWhile isWhiteSpace s @ trim s @ rev (takeWhile isWhiteSpace (rev ?d))"
    using trim_decomp [of s] by (simp only: takeWhile_dropWhile_id)
  then have "?d = trim s @ rev (takeWhile isWhiteSpace (rev ?d))"
    by (simp only: same_append_eq)
  then have "hd ?d = hd (trim s)"
    using ne by (metis hd_append2)
  with white show ?thesis by simp
qed

lemma trim_last:
  assumes ne: "trim s \<noteq> []"
  shows "\<not> isWhiteSpace (last (trim s))"
proof -
  let ?e = "dropWhile isWhiteSpace (rev (dropWhile isWhiteSpace s))"
  have "?e \<noteq> []"
    using ne by (simp add: trim_def)
  then have "\<not> isWhiteSpace (hd ?e)"
    by (rule hd_dropWhile)
  then show ?thesis
    by (simp add: trim_def last_rev)
qed

lemma trim_id:
  assumes "s \<noteq> []" and "\<not> isWhiteSpace (hd s)" and "\<not> isWhiteSpace (last s)"
  shows "trim s = s"
proof -
  have front_id: "dropWhile isWhiteSpace s = s"
    using assms by (simp add: dropWhile_eq_self_iff)
  have "hd (rev s) = last s"
    using assms(1) by (simp add: hd_rev)
  then have rear_id: "dropWhile isWhiteSpace (rev s) = rev s"
    using assms by (simp add: dropWhile_eq_self_iff)
  show ?thesis
    by (simp add: trim_def front_id rear_id)
qed

lemma sanitizeInput_subseq: "subseq (sanitizeInput input) input"
proof -
  let ?f = "filter (\<lambda>c. c \<noteq> 0x3C \<and> c \<noteq> 0x3E) input"
  have "subseq (take 2000 (trim ?f)) (trim ?f)"
    by (rule prefix_imp_subseq) (rule take_is_prefix)
  also have "subseq (trim ?f) ?f"
    by (rule trim_subseq)
  also have "subseq ?f input"
    by (rule subseq_filter_left)
  finally show ?thesis
    by (simp add: sanitizeInput_def)
qed

lemma trim_set:
  assumes "x \<in> set (trim s)"
  shows "x \<in> set s"
proof -
  from assms have "x \<in> set (dropWhile isWhiteSpace (rev (dropWhile isWhiteSpace s)))"
    by (simp add: trim_def)
  then have "x \<in> set (rev (dropWhile isWhiteSpace s))"
    by (rule set_dropWhileD)
  then have "x \<in> set (dropWhile isWhiteSpace s)"
    by simp
  then show ?thesis
    by (rule set_dropWhileD)
qed

lemma sanitizeInput_no_brackets:
  "0x3C \<notin> set (sanitizeInput input) \<and> 0x3E \<notin> set (sanitizeInput input)"
proof -
  let ?f = "filter (\<lambda>c. c \<noteq> 0x3C \<and> c \<noteq> 0x3E) input"
  have kept: "x \<noteq> 0x3C \<and> x \<noteq> 0x3E" if "x \<in> set (sanitizeInput input)" for x
  proof -
    from that have "x \<in> set (take 2000 (trim ?f))"
      by (simp only: sanitizeInput_def)
    then have "x \<in> set (trim ?f)"
      by (rule in_set_takeD)
    then have "x \<in> set ?f"
      by (rule trim_set)
    then show ?thesis
      by simp
  qed
  show ?thesis
    using kept by blast
qed

lemma sanitizeInput_ends:
  "(sanitizeInput input \<noteq> [] \<longrightarrow> \<not> isWhiteSpace (hd (sanitizeInput input)))
   \<and> (sanitizeInput input \<noteq> [] \<and> length (sanitizeInput input) < 2000
        \<longrightarrow> \<not> isWhiteSpace (last (sanitizeInput input)))"
proof -
  let ?t = "trim (filter (\<lambda>c. c \<noteq> 0x3C \<and> c \<noteq> 0x3E) input)"
  have s: "sanitizeInput input = take 2000 ?t"
    by (simp add: sanitizeInput_def)
  have head: "\<not> isWhiteSpace (hd (take 2000 ?t))" if "take 2000 ?t \<noteq> []"
  proof -
    from that have "?t \<noteq> []" by auto
    then have "\<not> isWhiteSpace (hd ?t)" by (rule trim_hd)
    then show ?thesis by (simp add: hd_take)
  qed
  have tail: "\<not> isWhiteSpace (last (take 2000 ?t))"
    if "take 2000 ?t \<noteq> []" and "length (take 2000 ?t) < 2000"
  proof -
    from that(2) have whole: "take 2000 ?t = ?t" by simp
    with that(1) have "?t \<noteq> []" by simp
    then have "\<not> isWhiteSpace (last ?t)" by (rule trim_last)
    with whole show ?thesis by simp
  qed
  from head tail show ?thesis
    unfolding s by blast
qed

lemma sanitizeInput_clean:
  assumes "length input = 2500" and "0x3C \<notin> set input" and "0x3E \<notin> set input"
    and "\<not> isWhiteSpace (hd input)" and "\<not> isWhiteSpace (last input)"
  shows "sanitizeInput input = take 2000 input \<and> length (sanitizeInput input) = 2000"
proof -
  have "filter (\<lambda>c. c \<noteq> 0x3C \<and> c \<noteq> 0x3E) input = input"
    using assms(2,3) by (auto simp: filter_id_conv)
  moreover have "input \<noteq> []"
    using assms(1) by auto
  then have "trim input = input"
    using assms(4,5) by (rule trim_id)
  ultimately show ?thesis
    using assms(1) by (simp add: sanitizeInput_def)
qed

text \<open>
  C5, as the specification states it, fails: only the two angle brackets are removed, so the
  slash and the second \<open>script\<close> of the example stay, and an input of length 2500 made
  of angle brackets sanitizes to the empty string.
\<close>

theorem sanitizeInput_claim_counterexample:
  "sanitizeInput (js '' <script>hi</script> '') \<noteq> js ''scripthi''
   \<and> length (replicate 2500 (0x3C :: 16 word)) = 2500
   \<and> length (sanitizeInput (replicate 2500 0x3C)) \<noteq> 2000"
  by (simp add: sanitizeInput_def js_def trim_def isWhiteSpace_def)

text \<open>
  C5, amended. \<open>sanitizeInput\<close> removes every \<open><\<close> and \<open>>\<close> and nothing between
  them, trims white space from both ends and keeps at most 2000 code units: the result is
  a subsequence of the input without angle brackets, of length at most 2000, that does
  not start with white space and, unless it was cut at 2000, does not end with it. On
  the example of the specification it gives \<open>scripthi/script\<close>. An input of length 2500 without
  angle brackets and without white space at either end sanitizes to its first 2000 code
  units.
\<close>

theorem sanitizeInput_strips_trims_truncates:
  "subseq (sanitizeInput input) input
   \<and> 0x3C \<notin> set (sanitizeInput input) \<and> 0x3E \<notin> set (sanitizeInput input)
   \<and> length (sanitizeInput input) \<le> 2000
   \<and> (sanitizeInput input \<noteq> [] \<longrightarrow> \<not> isWhiteSpace (hd (sanitizeInput input)))
   \<and> (sanitizeInput input \<noteq> [] \<and> length (sanitizeInput input) < 2000
        \<longrightarrow> \<not> isWhiteSpace (last (sanitizeInput input)))
   \<and> sanitizeInput (js '' <script>hi</script> '') = js ''scripthi/script''
   \<and> (length input = 2500 \<and> 0x3C \<notin> set input \<and> 0x3E \<notin> set input
        \<and> \<not> isWhiteSpace (hd input) \<and> \<not> isWhiteSpace (last input)
        \<longrightarrow> sanitizeInput input = take 2000 input \<and> length (sanitizeInput input) = 2000)"
proof -
  have bound: "length (sanitizeInput input) \<le> 2000"
    by (simp add: sanitizeInput_def)
  have example: "sanitizeInput (js '' <script>hi</script> '') = js ''scripthi/script''"
    by (simp add: sanitizeInput_def js_def trim_def isWhiteSpace_def)
  show ?thesis
    using sanitizeInput_subseq [of input] sanitizeInput_no_brackets [of input] bound
      sanitizeInput_ends [of input] example sanitizeInput_clean [of input]
    by blast
qed

theorem sanitizeInput_strips_trims_truncates_witness:
  "length (replicate 2500 (0x61 :: 16 word)) = 2500
   \<and> 0x3C \<notin> set (replicate 2500 (0x61 :: 16 word))
   \<and> 0x3E \<notin> set (replicate 2500 (0x61 :: 16 word))
   \<and> \<not> isWhiteSpace (hd (replicate 2500 0x61))
   \<and> \<not> isWhiteSpace (last (replicate 2500 0x61))
   \<and> sanitizeInput (replicate 2500 0x61) = replicate 2000 0x61
   \<and> length (sanitizeInput (replicate 2500 0x61)) = 2000"
proof -
  let ?r = "replicate 2500 (0x61 :: 16 word)"
  have hyp: "length ?r = 2500 \<and> 0x3C \<notin> set ?r \<and> 0x3E \<notin> set ?r
             \<and> \<not> isWhiteSpace (hd ?r) \<and> \<not> isWhiteSpace (last ?r)"
    by (simp add: isWhiteSpace_def)
  from sanitizeInput_strips_trims_truncates [of ?r] hyp
  have "sanitizeInput ?r = take 2000 ?r \<and> length (sanitizeInput ?r) = 2000"
    by blast
  then show ?thesis
    using hyp by simp
qed

section \<open>Credential validation\<close>

text \<open>
  C8, as the specification states it, fails on config.js: with the malformed credential
  \<open>not-a-key\<close> injected, \<open>validateAndLogConfig\<close> warns and returns \<open>false\<close>, but
  the getter \<open>CONFIG.claude.apiKey\<close> still resolves to \<open>not-a-key\<close>, not to
  \<open>null\<close>.
\<close>

theorem apiKey_claim_counterexample:
  "\<not> startsWith (js ''not-a-key'') (js ''sk-ant-'')
   \<and> validateAndLogConfig production False
         \<lparr>window_CLAUDE_API_KEY = Some (js ''not-a-key''), process_env_CLAUDE_API_KEY = None\<rparr>
       = ([WarnInvalidKeyFormat], False)
   \<and> apiKey \<lparr>window_CLAUDE_API_KEY = Some (js ''not-a-key''), process_env_CLAUDE_API_KEY = None\<rparr>
       = Some (js ''not-a-key'')
   \<and> apiKey \<lparr>window_CLAUDE_API_KEY = Some (js ''not-a-key''), process_env_CLAUDE_API_KEY = None\<rparr>
       \<noteq> None"
  by (simp add: validateAndLogConfig_def apiKey_def startsWith_def js_def)

text \<open>
  C8, amended. For every credential that resolves (is present) and does not start with
  \<open>sk-ant-\<close>: the load-time check of the older script sets \<open>apiKey\<close> to \<open>null\<close>, as
  it is when no credential is present; \<open>validateAndLogConfig\<close> of config.js returns
  \<open>false\<close>, as it does when no credential is present, after one warning and without
  raising; the getter \<open>CONFIG.claude.apiKey\<close> of config.js still returns the malformed
  value.
\<close>

theorem malformed_credential_handling:
  assumes "apiKey src = Some k" and "\<not> startsWith k (js ''sk-ant-'')"
  shows "validated_apiKey src = None
       \<and> validated_apiKey \<lparr>window_CLAUDE_API_KEY = None, process_env_CLAUDE_API_KEY = None\<rparr> = None
       \<and> validateAndLogConfig env debugMode src = ([WarnInvalidKeyFormat], False)
       \<and> snd (validateAndLogConfig env debugMode
                 \<lparr>window_CLAUDE_API_KEY = None, process_env_CLAUDE_API_KEY = None\<rparr>) = False
       \<and> apiKey src = Some k"
proof -
  from assms(1) have "k \<noteq> []"
    by (auto simp: apiKey_def split: if_splits option.splits elim: truthy.elims)
  with assms show ?thesis
    by (simp add: validated_apiKey_def validateAndLogConfig_def apiKey_def)
qed

theorem malformed_credential_handling_witness:
  "apiKey \<lparr>window_CLAUDE_API_KEY = None, process_env_CLAUDE_API_KEY = Some (js ''secret'')\<rparr>
     = Some (js ''secret'')
   \<and> \<not> startsWith (js ''secret'') (js ''sk-ant-'')
   \<and> validated_apiKey
         \<lparr>window_CLAUDE_API_KEY = None, process_env_CLAUDE_API_KEY = Some (js ''secret'')\<rparr> = None
   \<and> validateAndLogConfig development True
         \<lparr>window_CLAUDE_API_KEY = None, process_env_CLAUDE_API_KEY = Some (js ''secret'')\<rparr>
       = ([WarnInvalidKeyFormat], False)"
proof -
  let ?src = "\<lparr>window_CLAUDE_API_KEY = None, process_env_CLAUDE_API_KEY = Some (js ''secret'')\<rparr>"
  have key: "apiKey ?src = Some (js ''secret'')"
    by (simp add: apiKey_def js_def)
  have bad: "\<not> startsWith (js ''secret'') (js ''sk-ant-'')"
    by (simp add: startsWith_def js_def)
  from malformed_credential_handling [OF key bad, of development True] key bad
  show ?thesis
    by blast
qed

section \<open>Fallback answers\<close>

lemma navigationAnswer_not_empty: "navigationAnswer \<noteq> []"
  unfolding navigationAnswer_def by (simp add: js_def)

lemma defaultAnswer_not_empty: "defaultAnswer \<noteq> []"
  unfolding defaultAnswer_def by (simp add: js_def)

lemma getFallbackResponse_cases:
  "getFallbackResponse toLowerCase userMessage
     = \<lparr>message = Some navigationAnswer, actions = [], source = Some fallback\<rparr>
   \<or> getFallbackResponse toLowerCase userMessage
     = \<lparr>message = Some defaultAnswer, actions = [], source = Some fallback\<rparr>"
  by (simp add: getFallbackResponse_def Let_def)

lemma getFallbackResponse_message:
  "\<exists>text. message (getFallbackResponse toLowerCase userMessage) = Some text \<and> text \<noteq> []"
  using getFallbackResponse_cases [of toLowerCase userMessage]
    navigationAnswer_not_empty defaultAnswer_not_empty
  by auto

lemma getFallbackResponse_source:
  "source (getFallbackResponse toLowerCase userMessage) = Some fallback"
  using getFallbackResponse_cases [of toLowerCase userMessage] by auto

text \<open>
  C9. \<open>getFallbackResponse\<close> is defined on every string, the empty one included: it
  answers with a text that is present and not empty, tagged \<open>fallback\<close>. The answer
  is that of the first pattern that matches the lower-cased input (the navigation
  keywords \<open>navigate\<close>, \<open>how to use\<close>, \<open>help\<close>) and the generic suggestions
  when none matches; on the empty string, which lower-cases to itself, it is the generic
  suggestions. All of this holds whatever the case mapping of the engine is.
\<close>

theorem getFallbackResponse_total:
  "(\<exists>text. message (getFallbackResponse toLowerCase userMessage) = Some text \<and> text \<noteq> [])
   \<and> source (getFallbackResponse toLowerCase userMessage) = Some fallback
   \<and> message (getFallbackResponse toLowerCase userMessage)
       = Some (if includes_str (toLowerCase userMessage) (js ''navigate'')
                  \<or> includes_str (toLowerCase userMessage) (js ''how to use'')
                  \<or> includes_str (toLowerCase userMessage) (js ''help'')
               then navigationAnswer else defaultAnswer)
   \<and> (\<exists>text. message (getFallbackResponse toLowerCase []) = Some text \<and> text \<noteq> [])
   \<and> source (getFallbackResponse toLowerCase []) = Some fallback
   \<and> (toLowerCase [] = [] \<longrightarrow>
        message (getFallbackResponse toLowerCase []) = Some defaultAnswer)"
proof -
  have first_match: "message (getFallbackResponse toLowerCase userMessage)
       = Some (if includes_str (toLowerCase userMessage) (js ''navigate'')
                  \<or> includes_str (toLowerCase userMessage) (js ''how to use'')
                  \<or> includes_str (toLowerCase userMessage) (js ''help'')
               then navigationAnswer else defaultAnswer)"
    by (simp add: getFallbackResponse_def Let_def)
  have empty: "message (getFallbackResponse toLowerCase []) = Some defaultAnswer"
    if "toLowerCase [] = []"
    using that by (simp add: getFallbackResponse_def Let_def js_def)
  show ?thesis
    using getFallbackResponse_message [of toLowerCase userMessage]
      getFallbackResponse_source [of toLowerCase userMessage]
      getFallbackResponse_message [of toLowerCase "[]"]
      getFallbackResponse_source [of toLowerCase "[]"]
      first_match empty
    by blast
qed

theorem getFallbackResponse_total_witness:
  "message (getFallbackResponse toLowerCaseLatin1 (js ''Please HELP me'')) = Some navigationAnswer
   \<and> source (getFallbackResponse toLowerCaseLatin1 (js ''Please HELP me'')) = Some fallback
   \<and> toLowerCaseLatin1 [] = []
   \<and> message (getFallbackResponse toLowerCaseLatin1 []) = Some defaultAnswer
   \<and> navigationAnswer \<noteq> [] \<and> defaultAnswer \<noteq> []"
proof -
  have hit: "includes_str (toLowerCaseLatin1 (js ''Please HELP me'')) (js ''help'')"
    by (simp add: toLowerCaseLatin1_def lowerUnit_def js_def)
  have nil: "toLowerCaseLatin1 [] = []"
    by (simp add: toLowerCaseLatin1_def)
  from getFallbackResponse_total [of toLowerCaseLatin1 "js ''Please HELP me''"] hit nil
  have "message (getFallbackResponse toLowerCaseLatin1 (js ''Please HELP me'')) = Some navigationAnswer
        \<and> source (getFallbackResponse toLowerCaseLatin1 (js ''Please HELP me'')) = Some fallback
        \<and> message (getFallbackResponse toLowerCaseLatin1 []) = Some defaultAnswer"
    by simp
  then show ?thesis
    using nil navigationAnswer_not_empty defaultAnswer_not_empty by simp
qed

section \<open>Rate limiting\<close>

lemma checkRateLimit_reset:
  assumes "now - lastReset t > oneMinute"
  shows "checkRateLimit now t =
           (if 0 \<ge> maxRequests t
            then (Inl RateLimitExceeded, t\<lparr>requests := 0, lastReset := now\<rparr>)
            else (Inr (), t\<lparr>requests := 1, lastReset := now\<rparr>))"
  using assms by (simp add: checkRateLimit_def Let_def)

lemma checkRateLimit_deny:
  assumes "\<not> now - lastReset t > oneMinute" and "requests t \<ge> maxRequests t"
  shows "checkRateLimit now t = (Inl RateLimitExceeded, t)"
  using assms by (simp add: checkRateLimit_def Let_def)

lemma checkRateLimit_permit:
  assumes "\<not> now - lastReset t > oneMinute" and "requests t < maxRequests t"
  shows "checkRateLimit now t = (Inr (), t\<lparr>requests := requests t + 1\<rparr>)"
  using assms by (simp add: checkRateLimit_def Let_def)

lemma attempts_scenario:
  assumes fresh: "requests t = 0" and limit: "maxRequests t = 3"
    and w1: "n1 - lastReset t \<le> 60000" and w2: "n2 - lastReset t \<le> 60000"
    and w3: "n3 - lastReset t \<le> 60000" and w4: "n4 - lastReset t \<le> 60000"
    and later: "n5 - lastReset t > 60000"
  shows "fst (attempts [n1, n2, n3, n4, n5] t) = [True, True, True, False, True]"
proof -
  let ?t1 = "t\<lparr>requests := 1\<rparr>"
  let ?t2 = "t\<lparr>requests := 2\<rparr>"
  let ?t3 = "t\<lparr>requests := 3\<rparr>"
  let ?t5 = "t\<lparr>requests := 1, lastReset := n5\<rparr>"
  have a1: "checkRateLimit n1 t = (Inr (), ?t1)"
    using fresh limit w1 by (simp add: checkRateLimit_def Let_def oneMinute_def)
  have a2: "checkRateLimit n2 ?t1 = (Inr (), ?t2)"
    using limit w2 by (simp add: checkRateLimit_def Let_def oneMinute_def)
  have a3: "checkRateLimit n3 ?t2 = (Inr (), ?t3)"
    using limit w3 by (simp add: checkRateLimit_def Let_def oneMinute_def)
  have a4: "checkRateLimit n4 ?t3 = (Inl RateLimitExceeded, ?t3)"
    using limit w4 by (simp add: checkRateLimit_def Let_def oneMinute_def)
  have a5: "checkRateLimit n5 ?t3 = (Inr (), ?t5)"
    using limit later by (simp add: checkRateLimit_def Let_def oneMinute_def)
  show ?thesis
    by (simp add: a1 a2 a3 a4 a5)
qed

text \<open>
  C3. \<open>checkRateLimit\<close> is a fixed-window counter over a window of 60000 ms. When the
  clock is more than the window past \<open>lastReset\<close>, it sets \<open>requests\<close> to 0 and
  \<open>lastReset\<close> to the clock before it decides, so the attempt is counted as the first
  of the new window. Otherwise, with \<open>requests\<close> at \<open>maxRequests\<close> or above it denies
  and leaves the tracker as it was, and below it permits and adds one to \<open>requests\<close>.
  With a limit of 3, four attempts inside the window are permitted, permitted, permitted,
  denied, and an attempt more than 60000 ms after the start of the window (at 60001 ms,
  for one) is permitted again.
\<close>

theorem checkRateLimit_fixed_window:
  "oneMinute = 60000
   \<and> (now - lastReset t > oneMinute \<longrightarrow>
        checkRateLimit now t =
          (if 0 \<ge> maxRequests t
           then (Inl RateLimitExceeded, t\<lparr>requests := 0, lastReset := now\<rparr>)
           else (Inr (), t\<lparr>requests := 0 + 1, lastReset := now\<rparr>)))
   \<and> (\<not> now - lastReset t > oneMinute \<and> requests t \<ge> maxRequests t \<longrightarrow>
        checkRateLimit now t = (Inl RateLimitExceeded, t))
   \<and> (\<not> now - lastReset t > oneMinute \<and> requests t < maxRequests t \<longrightarrow>
        checkRateLimit now t = (Inr (), t\<lparr>requests := requests t + 1\<rparr>))
   \<and> (requests t = 0 \<and> maxRequests t = 3
        \<and> n1 - lastReset t \<le> 60000 \<and> n2 - lastReset t \<le> 60000
        \<and> n3 - lastReset t \<le> 60000 \<and> n4 - lastReset t \<le> 60000
        \<and> n5 - lastReset t > 60000 \<longrightarrow>
        fst (attempts [n1, n2, n3, n4, n5] t) = [True, True, True, False, True])
   \<and> (requests t = 0 \<and> maxRequests t = 3
        \<and> lastReset t \<le> n1 \<and> n1 - lastReset t \<le> 60000 \<longrightarrow>
        fst (attempts [n1, n1, n1, n1, n1 + 60001] t) = [True, True, True, False, True])"
proof -
  have minute: "oneMinute = 60000"
    by (simp add: oneMinute_def)
  have reset: "checkRateLimit now t =
          (if 0 \<ge> maxRequests t
           then (Inl RateLimitExceeded, t\<lparr>requests := 0, lastReset := now\<rparr>)
           else (Inr (), t\<lparr>requests := 0 + 1, lastReset := now\<rparr>))"
    if "now - lastReset t > oneMinute"
    using checkRateLimit_reset [OF that] by simp
  have same_instant:
    "fst (attempts [n1, n1, n1, n1, n1 + 60001] t) = [True, True, True, False, True]"
    if "requests t = 0" and "maxRequests t = 3" and "lastReset t \<le> n1"
      and "n1 - lastReset t \<le> 60000"
    using that by (intro attempts_scenario) simp_all
  show ?thesis
    using minute reset checkRateLimit_deny [of now t] checkRateLimit_permit [of now t]
      attempts_scenario [of t n1 n2 n3 n4 n5] same_instant
    by blast
qed

theorem checkRateLimit_fixed_window_witness:
  "fst (attempts [1000, 2000, 3000, 61000, 61001]
          \<lparr>requests = 0, lastReset = 1000, maxRequests = 3\<rparr>)
     = [True, True, True, False, True]
   \<and> checkRateLimit 61000 \<lparr>requests = 3, lastReset = 1000, maxRequests = 3\<rparr>
     = (Inl RateLimitExceeded, \<lparr>requests = 3, lastReset = 1000, maxRequests = 3\<rparr>)
   \<and> checkRateLimit 61001 \<lparr>requests = 3, lastReset = 1000, maxRequests = 3\<rparr>
     = (Inr (), \<lparr>requests = 1, lastReset = 61001, maxRequests = 3\<rparr>)
   \<and> checkRateLimit 2000 \<lparr>requests = 1, lastReset = 1000, maxRequests = 3\<rparr>
     = (Inr (), \<lparr>requests = 2, lastReset = 1000, maxRequests = 3\<rparr>)"
  using
    checkRateLimit_fixed_window
      [of 61000 "\<lparr>requests = 0, lastReset = 1000, maxRequests = 3\<rparr>" 1000 2000 3000 61000 61001]
    checkRateLimit_fixed_window
      [of 61000 "\<lparr>requests = 3, lastReset = 1000, maxRequests = 3\<rparr>"]
    checkRateLimit_fixed_window
      [of 61001 "\<lparr>requests = 3, lastReset = 1000, maxRequests = 3\<rparr>"]
    checkRateLimit_fixed_window
      [of 2000 "\<lparr>requests = 1, lastReset = 1000, maxRequests = 3\<rparr>"]
  by simp

section \<open>Response cache\<close>

lemma Map_set_new:
  assumes "k \<notin> fst ` set m"
  shows "Map_set k v m = m @ [(k, v)]"
  using assms by (induction m) auto

lemma length_Map_set_le: "length (Map_set k v m) \<le> Suc (length m)"
  by (induction m) auto

lemma Map_set_not_empty: "Map_set k v m \<noteq> []"
  by (cases m) auto

lemma length_Map_delete_first:
  "length (Map_delete (fst e) (e # m)) \<le> length m"
  by (simp add: Map_delete_def)

lemma Map_delete_first:
  assumes "distinct (map fst (e # m))"
  shows "Map_delete (fst e) (e # m) = m"
proof -
  from assms have "fst e \<notin> fst ` set m"
    by simp
  then have "\<forall>x \<in> set m. fst x \<noteq> fst e"
    by (metis imageI)
  then have "filter (\<lambda>x. fst x \<noteq> fst e) m = m"
    by (simp add: filter_id_conv)
  then show ?thesis
    by (simp add: Map_delete_def)
qed

lemma length_setCachedResponse:
  assumes "length cache \<le> 100"
  shows "length (setCachedResponse toLowerCase cache userMessage response) \<le> 100"
proof -
  let ?c = "Map_set (cacheKey toLowerCase userMessage) response cache"
  show ?thesis
  proof (cases "length ?c > 100")
    case False
    then show ?thesis
      by (simp add: setCachedResponse_def Let_def)
  next
    case True
    obtain e m where c: "?c = e # m"
      using Map_set_not_empty [of "cacheKey toLowerCase userMessage" response cache]
      by (cases ?c) auto
    have "length ?c \<le> 101"
      using length_Map_set_le [of "cacheKey toLowerCase userMessage" response cache] assms by simp
    then have "length m \<le> 100"
      using c by simp
    moreover have "setCachedResponse toLowerCase cache userMessage response = Map_delete (fst e) (e # m)"
      using True c by (simp add: setCachedResponse_def Let_def split: prod.splits)
    ultimately show ?thesis
      using length_Map_delete_first [of e m] by simp
  qed
qed

lemma setCachedResponses_snoc:
  "setCachedResponses toLowerCase c (puts @ [p]) = setCachedResponse toLowerCase (setCachedResponses toLowerCase c puts) (fst p) (snd p)"
  by (simp add: setCachedResponses_def)

lemma length_setCachedResponses:
  assumes "length c \<le> 100"
  shows "length (setCachedResponses toLowerCase c puts) \<le> 100"
proof (induction puts rule: rev_induct)
  case Nil
  show ?case using assms by (simp add: setCachedResponses_def)
next
  case (snoc p puts)
  then show ?case
    by (simp only: setCachedResponses_snoc length_setCachedResponse)
qed

text \<open>The entry an insertion stores: the normalized key and the response.\<close>

lemma setCachedResponses_no_eviction:
  assumes "distinct (map (\<lambda>p. cacheKey toLowerCase (fst p)) puts)" and "length puts \<le> 100"
  shows "setCachedResponses toLowerCase [] puts = map (\<lambda>p. (cacheKey toLowerCase (fst p), snd p)) puts"
  using assms
proof (induction puts rule: rev_induct)
  case Nil
  show ?case by (simp add: setCachedResponses_def)
next
  case (snoc p puts)
  let ?entry = "\<lambda>p. (cacheKey toLowerCase (fst p), snd p)"
  from snoc.prems have before: "setCachedResponses toLowerCase [] puts = map ?entry puts"
    by (intro snoc.IH) simp_all
  from snoc.prems have "cacheKey toLowerCase (fst p) \<notin> fst ` set (map ?entry puts)"
    by (auto simp: image_iff)
  then have "Map_set (cacheKey toLowerCase (fst p)) (snd p) (map ?entry puts) = map ?entry puts @ [?entry p]"
    by (rule Map_set_new)
  moreover have "length (map ?entry puts @ [?entry p]) \<le> 100"
    using snoc.prems by simp
  ultimately have "setCachedResponse toLowerCase (map ?entry puts) (fst p) (snd p) = map ?entry puts @ [?entry p]"
    by (simp add: setCachedResponse_def Let_def)
  then show ?case
    by (simp add: setCachedResponses_snoc before)
qed

lemma setCachedResponses_evicts_first:
  assumes keys: "distinct (map (\<lambda>p. cacheKey toLowerCase (fst p)) puts)" and full: "length puts = 101"
  shows "setCachedResponses toLowerCase [] puts = tl (map (\<lambda>p. (cacheKey toLowerCase (fst p), snd p)) puts)"
proof -
  let ?entry = "\<lambda>p. (cacheKey toLowerCase (fst p), snd p)"
  from full obtain ps p where split: "puts = ps @ [p]"
    by (cases puts rule: rev_cases) auto
  with full have len: "length ps = 100"
    by simp
  from keys split have ps_keys: "distinct (map (\<lambda>p. cacheKey toLowerCase (fst p)) ps)"
    by simp
  have before: "setCachedResponses toLowerCase [] ps = map ?entry ps"
    using ps_keys len by (intro setCachedResponses_no_eviction) simp_all
  from keys split have "cacheKey toLowerCase (fst p) \<notin> fst ` set (map ?entry ps)"
    by (auto simp: image_iff)
  then have appended: "Map_set (cacheKey toLowerCase (fst p)) (snd p) (map ?entry ps) = map ?entry puts"
    using split by (simp add: Map_set_new)
  from len obtain q qs where ps: "ps = q # qs"
    by (cases ps) auto
  have all: "map ?entry puts = ?entry q # map ?entry (qs @ [p])"
    using split ps by simp
  have "distinct (map fst (map ?entry puts))"
    using keys by (simp add: comp_def)
  then have "distinct (map fst (?entry q # map ?entry (qs @ [p])))"
    by (simp only: all)
  then have "Map_delete (fst (?entry q)) (?entry q # map ?entry (qs @ [p])) = map ?entry (qs @ [p])"
    by (rule Map_delete_first)
  then have "Map_delete (cacheKey toLowerCase (fst q)) (map ?entry puts) = tl (map ?entry puts)"
    using all by simp
  moreover have "length (map ?entry puts) > 100"
    using full by simp
  ultimately have "setCachedResponse toLowerCase (map ?entry ps) (fst p) (snd p) = tl (map ?entry puts)"
    using appended all by (simp add: setCachedResponse_def Let_def)
  then show ?thesis
    by (simp add: split setCachedResponses_snoc before)
qed

lemma getCachedResponse_after_eviction:
  assumes keys: "distinct (map (\<lambda>p. cacheKey toLowerCase (fst p)) puts)" and full: "length puts = 101"
  shows "getCachedResponse toLowerCase (setCachedResponses toLowerCase [] puts) (fst (hd puts)) = None"
    and "\<forall>i. 1 \<le> i \<and> i < 101 \<longrightarrow>
           getCachedResponse toLowerCase (setCachedResponses toLowerCase [] puts) (fst (puts ! i)) = Some (snd (puts ! i))"
    and "length (setCachedResponses toLowerCase [] puts) = 100"
proof -
  let ?entry = "\<lambda>p. (cacheKey toLowerCase (fst p), snd p)"
  from full obtain q qs where puts: "puts = q # qs"
    by (cases puts) auto
  have cache_puts: "setCachedResponses toLowerCase [] puts = map ?entry qs"
    using setCachedResponses_evicts_first [OF keys full] puts by simp
  then have cache: "setCachedResponses toLowerCase [] (q # qs) = map ?entry qs"
    by (simp only: puts)
  from keys puts have fresh: "cacheKey toLowerCase (fst q) \<notin> fst ` set (map ?entry qs)"
    by (auto simp: image_iff)
  then have "map_of (map ?entry qs) (cacheKey toLowerCase (fst q)) = None"
    by (simp only: map_of_eq_None_iff not_False_eq_True)
  then show "getCachedResponse toLowerCase (setCachedResponses toLowerCase [] puts) (fst (hd puts)) = None"
    by (simp add: getCachedResponse_def Map_get_def cache puts)
  from keys puts have dist: "distinct (map fst (map ?entry qs))"
    by (simp add: comp_def)
  have "getCachedResponse toLowerCase (setCachedResponses toLowerCase [] puts) (fst (puts ! i)) = Some (snd (puts ! i))"
    if "1 \<le> i" and "i < 101" for i
  proof -
    from that full puts have j: "i - 1 < length qs" and nth: "puts ! i = qs ! (i - 1)"
      by (auto simp: nth_Cons')
    from j have "?entry (qs ! (i - 1)) \<in> set (map ?entry qs)"
      by simp
    then have "(cacheKey toLowerCase (fst (qs ! (i - 1))), snd (qs ! (i - 1))) \<in> set (map ?entry qs)"
      by simp
    with dist have "map_of (map ?entry qs) (cacheKey toLowerCase (fst (qs ! (i - 1)))) = Some (snd (qs ! (i - 1)))"
      by (rule map_of_is_SomeI)
    then show ?thesis
      by (simp add: getCachedResponse_def Map_get_def cache_puts nth)
  qed
  then show "\<forall>i. 1 \<le> i \<and> i < 101 \<longrightarrow>
           getCachedResponse toLowerCase (setCachedResponses toLowerCase [] puts) (fst (puts ! i)) = Some (snd (puts ! i))"
    by blast
  show "length (setCachedResponses toLowerCase [] puts) = 100"
    using full by (simp add: puts cache)
qed

text \<open>
  Messages for a run of 101 insertions: \<open>a\<close>, \<open>aa\<close>, \<open>aaa\<close> and so on. They are
  in lower case and have no white space, so each is its own key.
\<close>

lemma cacheKey_run_of_a:
  "cacheKey toLowerCaseLatin1 (replicate (Suc n) 0x61) = replicate (Suc n) 0x61"
proof -
  have "lowerUnit 0x61 = 0x61"
    by (simp add: lowerUnit_def)
  then have lower: "toLowerCaseLatin1 (replicate (Suc n) 0x61) = replicate (Suc n) 0x61"
    by (simp add: toLowerCaseLatin1_def)
  have "\<not> isWhiteSpace 0x61"
    by (simp add: isWhiteSpace_def)
  then have "trim (replicate (Suc n) 0x61) = replicate (Suc n) 0x61"
    by (intro trim_id) (simp_all del: replicate.simps add: hd_replicate last_replicate)
  with lower show ?thesis
    by (simp only: cacheKey_def)
qed

lemma distinct_runs_of_a:
  "distinct (map (\<lambda>p. cacheKey toLowerCaseLatin1 (fst p))
     (map (\<lambda>n. (replicate (Suc n) 0x61, n)) [0..<101]))"
proof -
  have "map (\<lambda>p. cacheKey toLowerCaseLatin1 (fst p))
          (map (\<lambda>n. (replicate (Suc n) 0x61, n)) [0..<101])
        = map (\<lambda>n. replicate (Suc n) (0x61 :: 16 word)) [0..<101]"
    by (simp only: map_map comp_def fst_conv cacheKey_run_of_a)
  moreover have "inj_on (\<lambda>n. replicate (Suc n) (0x61 :: 16 word)) (set [0..<101])"
  proof (rule inj_onI)
    fix n m :: nat
    assume "replicate (Suc n) (0x61 :: 16 word) = replicate (Suc m) 0x61"
    then have "length (replicate (Suc n) (0x61 :: 16 word)) = length (replicate (Suc m) (0x61 :: 16 word))"
      by (rule arg_cong)
    then show "n = m"
      by (simp only: length_replicate nat.inject)
  qed
  ultimately show ?thesis
    by (simp only: distinct_map distinct_upt simp_thms)
qed

text \<open>
  C4. The cache never holds more than 100 entries after an insertion: one insertion
  keeps a cache of at most 100 entries at most that large, and so does any run of
  insertions into the empty cache. Inserting 101 messages with distinct keys (the
  lower-cased, trimmed messages) into the empty cache leaves 100 entries: a lookup of the
  first message finds nothing, and a lookup of each of the other 100 finds the response
  stored for it. All of this holds whatever the case mapping of the engine is.
\<close>

theorem responseCache_bounded_fifo:
  "(length cache \<le> 100 \<longrightarrow>
      length (setCachedResponse toLowerCase cache userMessage response) \<le> 100)
   \<and> length (setCachedResponses toLowerCase [] puts) \<le> 100
   \<and> (length puts = 101 \<and> distinct (map (\<lambda>p. cacheKey toLowerCase (fst p)) puts) \<longrightarrow>
        length (setCachedResponses toLowerCase [] puts) = 100
        \<and> getCachedResponse toLowerCase (setCachedResponses toLowerCase [] puts) (fst (hd puts))
            = None
        \<and> (\<forall>i. 1 \<le> i \<and> i < 101 \<longrightarrow>
              getCachedResponse toLowerCase (setCachedResponses toLowerCase [] puts)
                (fst (puts ! i))
                = Some (snd (puts ! i))))"
proof -
  have run: "length (setCachedResponses toLowerCase [] puts) \<le> 100"
    by (rule length_setCachedResponses) simp
  show ?thesis
    using length_setCachedResponse [of cache toLowerCase userMessage response] run
      getCachedResponse_after_eviction [of toLowerCase puts]
    by blast
qed

text \<open>
  The response stored for a message of the witness is its number: 0 for \<open>a\<close>, 1 for
  \<open>aa\<close>, up to 100.
\<close>

theorem responseCache_bounded_fifo_witness:
  "length (map (\<lambda>n. (replicate (Suc n) (0x61 :: 16 word), n)) [0..<101]) = 101
   \<and> distinct (map (\<lambda>p. cacheKey toLowerCaseLatin1 (fst p))
         (map (\<lambda>n. (replicate (Suc n) 0x61, n)) [0..<101]))
   \<and> length (setCachedResponses toLowerCaseLatin1 []
         (map (\<lambda>n. (replicate (Suc n) 0x61, n)) [0..<101])) = 100
   \<and> getCachedResponse toLowerCaseLatin1
         (setCachedResponses toLowerCaseLatin1 []
            (map (\<lambda>n. (replicate (Suc n) 0x61, n)) [0..<101]))
         (js ''a'') = None
   \<and> getCachedResponse toLowerCaseLatin1
         (setCachedResponses toLowerCaseLatin1 []
            (map (\<lambda>n. (replicate (Suc n) 0x61, n)) [0..<101]))
         (js ''aa'') = Some 1"
proof -
  let ?puts = "map (\<lambda>n. (replicate (Suc n) (0x61 :: 16 word), n)) [0..<101]"
  have len: "length ?puts = 101"
    by simp
  have keys: "distinct (map (\<lambda>p. cacheKey toLowerCaseLatin1 (fst p)) ?puts)"
    by (rule distinct_runs_of_a)
  have first: "fst (hd ?puts) = js ''a''"
    by (simp add: hd_map upt_rec js_def)
  have second: "fst (?puts ! 1) = js ''aa''" "snd (?puts ! 1) = 1"
    by (simp_all add: js_def)
  from responseCache_bounded_fifo [of "[]" toLowerCaseLatin1 "[]" 0 ?puts] len keys
  have evicted: "length (setCachedResponses toLowerCaseLatin1 [] ?puts) = 100
        \<and> getCachedResponse toLowerCaseLatin1 (setCachedResponses toLowerCaseLatin1 [] ?puts)
              (fst (hd ?puts)) = None"
    and kept: "\<forall>i. 1 \<le> i \<and> i < 101 \<longrightarrow>
          getCachedResponse toLowerCaseLatin1 (setCachedResponses toLowerCaseLatin1 [] ?puts)
            (fst (?puts ! i)) = Some (snd (?puts ! i))"
    by blast+
  from kept have "1 \<le> (1 :: nat) \<and> (1 :: nat) < 101 \<longrightarrow>
      getCachedResponse toLowerCaseLatin1 (setCachedResponses toLowerCaseLatin1 [] ?puts)
        (fst (?puts ! 1)) = Some (snd (?puts ! 1))"
    by (rule spec)
  then have "getCachedResponse toLowerCaseLatin1 (setCachedResponses toLowerCaseLatin1 [] ?puts)
               (fst (?puts ! 1)) = Some (snd (?puts ! 1))"
    by simp
  with evicted show ?thesis
    using len keys by (simp only: first second simp_thms)
qed

section \<open>Orchestration\<close>

text \<open>\<open>getAIResponse\<close> with \<open>sendMessage\<close> unfolded: the three ways a call can go.\<close>

lemma getAIResponse_unfold:
  "getAIResponse toLowerCase cfg w st userMessage =
     (case checkRateLimit (clock_limit w) (rateLimitTracker st) of
        (Inl e, t) \<Rightarrow> (getFallbackResponse toLowerCase userMessage, st\<lparr>rateLimitTracker := t\<rparr>)
      | (Inr u, t) \<Rightarrow>
          (case answer_of (upstream w) of
             Inl e \<Rightarrow>
               (getFallbackResponse toLowerCase userMessage,
                st\<lparr>rateLimitTracker := t, sent := sent st @ [request_of cfg userMessage]\<rparr>)
           | Inr text \<Rightarrow>
               (\<lparr>message = text, actions = [], source = Some claude\<rparr>,
                st\<lparr>rateLimitTracker := t, sent := sent st @ [request_of cfg userMessage]\<rparr>)))"
  by (auto simp: getAIResponse_def sendMessage_def sendMessage_failed_def Let_def
      split: prod.splits sum.splits)

lemma getAIResponse_denied:
  assumes "\<not> permitted (fst (checkRateLimit (clock_limit w) (rateLimitTracker st)))"
  shows "fst (getAIResponse toLowerCase cfg w st userMessage) = getFallbackResponse toLowerCase userMessage"
    and "sent (snd (getAIResponse toLowerCase cfg w st userMessage)) = sent st"
  using assms
  by (auto simp: getAIResponse_unfold split: prod.splits sum.splits)

lemma getAIResponse_permitted:
  assumes "permitted (fst (checkRateLimit (clock_limit w) (rateLimitTracker st)))"
  shows "sent (snd (getAIResponse toLowerCase cfg w st userMessage)) = sent st @ [request_of cfg userMessage]"
    and "fst (getAIResponse toLowerCase cfg w st userMessage) =
           (case answer_of (upstream w) of
              Inl e \<Rightarrow> getFallbackResponse toLowerCase userMessage
            | Inr text \<Rightarrow> \<lparr>message = text, actions = [], source = Some claude\<rparr>)"
  using assms
  by (auto simp: getAIResponse_unfold split: prod.splits sum.splits)

lemma getAIResponse_tracker:
  "rateLimitTracker (snd (getAIResponse toLowerCase cfg w st userMessage))
     = snd (checkRateLimit (clock_limit w) (rateLimitTracker st))"
  by (auto simp: getAIResponse_unfold split: prod.splits sum.splits)

lemma getAIResponse_cache:
  "responseCache (snd (getAIResponse toLowerCase cfg w st userMessage)) = responseCache st"
  by (auto simp: getAIResponse_unfold split: prod.splits sum.splits)

lemma getAIResponse_any_cache:
  shows "fst (getAIResponse toLowerCase cfg w (st\<lparr>responseCache := c\<rparr>) userMessage)
     = fst (getAIResponse toLowerCase cfg w st userMessage)"
    and "snd (getAIResponse toLowerCase cfg w (st\<lparr>responseCache := c\<rparr>) userMessage)
     = (snd (getAIResponse toLowerCase cfg w st userMessage))\<lparr>responseCache := c\<rparr>"
  by (auto simp: getAIResponse_unfold split: prod.splits sum.splits)




text \<open>
  C6, as the specification states it, fails. After \<open>setCachedResponse\<close> has stored an answer for
  \<open>hello\<close>, a lookup of \<open>Hello \<close> finds it; yet \<open>getAIResponse\<close> on \<open>Hello \<close> counts
  the call in the rate limiter, sends a request upstream and returns the answer of the
  upstream, not the cached one.
\<close>

theorem cache_hit_claim_counterexample:
  "getCachedResponse toLowerCaseLatin1 (setCachedResponse toLowerCaseLatin1 [] (js ''hello'') (js ''cached answer'')) (js ''Hello '')
     = Some (js ''cached answer'')
   \<and> requests (rateLimitTracker
         (fresh_state\<lparr>responseCache := setCachedResponse toLowerCaseLatin1 [] (js ''hello'') (js ''cached answer'')\<rparr>))
     = 0
   \<and> requests (rateLimitTracker (snd (getAIResponse toLowerCaseLatin1 config_with_key
         (call_with (answering (js ''fresh answer'')))
         (fresh_state\<lparr>responseCache := setCachedResponse toLowerCaseLatin1 [] (js ''hello'') (js ''cached answer'')\<rparr>)
         (js ''Hello ''))))
     = 1
   \<and> length (sent (snd (getAIResponse toLowerCaseLatin1 config_with_key
         (call_with (answering (js ''fresh answer'')))
         (fresh_state\<lparr>responseCache := setCachedResponse toLowerCaseLatin1 [] (js ''hello'') (js ''cached answer'')\<rparr>)
         (js ''Hello ''))))
     = 1
   \<and> message (fst (getAIResponse toLowerCaseLatin1 config_with_key
         (call_with (answering (js ''fresh answer'')))
         (fresh_state\<lparr>responseCache := setCachedResponse toLowerCaseLatin1 [] (js ''hello'') (js ''cached answer'')\<rparr>)
         (js ''Hello '')))
     = Some (js ''fresh answer'')"
proof -
  have hit: "getCachedResponse toLowerCaseLatin1 (setCachedResponse toLowerCaseLatin1 [] (js ''hello'') (js ''cached answer''))
               (js ''Hello '') = Some (js ''cached answer'')"
    by (simp add: getCachedResponse_def setCachedResponse_def Map_get_def cacheKey_def
        toLowerCaseLatin1_def lowerUnit_def trim_def isWhiteSpace_def js_def)
  show ?thesis
    unfolding hit
    by (simp add: getAIResponse_unfold checkRateLimit_def oneMinute_def Let_def)
qed

text \<open>
  C6, amended. No orchestration run consults the response cache. \<open>getAIResponse\<close>
  gives the same answer and leaves the same tracker and the same requests whatever the
  cache holds, and it leaves the cache as it was. Every run goes through
  \<open>checkRateLimit\<close> first, so the tracker after the run is the one \<open>checkRateLimit\<close>
  leaves, and a request goes upstream only when the rate limiter permitted the call.
\<close>

theorem getAIResponse_never_consults_cache:
  "fst (getAIResponse toLowerCase cfg w (st\<lparr>responseCache := c\<rparr>) userMessage)
     = fst (getAIResponse toLowerCase cfg w st userMessage)
   \<and> snd (getAIResponse toLowerCase cfg w (st\<lparr>responseCache := c\<rparr>) userMessage)
     = (snd (getAIResponse toLowerCase cfg w st userMessage))\<lparr>responseCache := c\<rparr>
   \<and> responseCache (snd (getAIResponse toLowerCase cfg w st userMessage)) = responseCache st
   \<and> rateLimitTracker (snd (getAIResponse toLowerCase cfg w st userMessage))
     = snd (checkRateLimit (clock_limit w) (rateLimitTracker st))
   \<and> (sent (snd (getAIResponse toLowerCase cfg w st userMessage)) \<noteq> sent st \<longrightarrow>
        permitted (fst (checkRateLimit (clock_limit w) (rateLimitTracker st))))"
proof -
  have "permitted (fst (checkRateLimit (clock_limit w) (rateLimitTracker st)))"
    if "sent (snd (getAIResponse toLowerCase cfg w st userMessage)) \<noteq> sent st"
    using that getAIResponse_denied(2) [of w st toLowerCase cfg userMessage] by blast
  then show ?thesis
    by (simp add: getAIResponse_any_cache getAIResponse_cache getAIResponse_tracker)
qed

theorem getAIResponse_never_consults_cache_witness:
  "sent (snd (getAIResponse toLowerCaseLatin1 config_with_key (call_with (answering (js ''fresh answer'')))
                fresh_state (js ''Hello ''))) \<noteq> sent fresh_state
   \<and> permitted (fst (checkRateLimit (clock_limit (call_with (answering (js ''fresh answer''))))
                       (rateLimitTracker fresh_state)))
   \<and> fst (getAIResponse toLowerCaseLatin1 config_with_key (call_with (answering (js ''fresh answer'')))
            (fresh_state\<lparr>responseCache := [(js ''hello'', js ''cached answer'')]\<rparr>)
            (js ''Hello ''))
     = fst (getAIResponse toLowerCaseLatin1 config_with_key (call_with (answering (js ''fresh answer'')))
              fresh_state (js ''Hello ''))
   \<and> rateLimitTracker (snd (getAIResponse toLowerCaseLatin1 config_with_key
         (call_with (answering (js ''fresh answer''))) fresh_state (js ''Hello '')))
     = \<lparr>requests = 1, lastReset = 0, maxRequests = 60\<rparr>"
proof -
  have made: "sent (snd (getAIResponse toLowerCaseLatin1 config_with_key
                 (call_with (answering (js ''fresh answer''))) fresh_state (js ''Hello '')))
              \<noteq> sent fresh_state"
    by (simp add: getAIResponse_unfold checkRateLimit_def oneMinute_def Let_def)
  have counted: "snd (checkRateLimit (clock_limit (call_with (answering (js ''fresh answer''))))
                       (rateLimitTracker fresh_state))
                 = \<lparr>requests = 1, lastReset = 0, maxRequests = 60\<rparr>"
    by (simp add: checkRateLimit_def oneMinute_def Let_def)
  from getAIResponse_never_consults_cache
         [of toLowerCaseLatin1 config_with_key "call_with (answering (js ''fresh answer''))"
             "[(js ''hello'', js ''cached answer'')]" fresh_state "js ''Hello ''"]
       made counted
  show ?thesis
    by (simp only: simp_thms)
qed

section \<open>Length of the answer\<close>

lemma validateResponse_cases:
  shows "length response > 5000 \<Longrightarrow>
           validateResponse response = js ''Response was too long. Please ask a more specific question.''"
    and "length response \<le> 5000 \<Longrightarrow> validateResponse response = response"
  by (simp_all add: validateResponse_def)

lemma sendMessage_answered:
  assumes "permitted (fst (checkRateLimit (clock_limit w) (rateLimitTracker st)))"
    and "answer_of (upstream w) = Inr text"
  shows "fst (sendMessage cfg w st userMessage)
           = \<lparr>sm_message = text, sm_success = True, sm_fallback = False\<rparr>"
  using assms
  by (auto simp: sendMessage_def Let_def split: prod.splits sum.splits)

lemma getAIResponse_answered:
  assumes "permitted (fst (checkRateLimit (clock_limit w) (rateLimitTracker st)))"
    and "answer_of (upstream w) = Inr text"
  shows "fst (getAIResponse toLowerCase cfg w st userMessage)
           = \<lparr>message = text, actions = [], source = Some claude\<rparr>"
  using getAIResponse_permitted(2) [OF assms(1), of toLowerCase cfg userMessage] assms(2)
  by simp

text \<open>
  C7, as the specification states it, fails. When the upstream answers with a text of
  5001 letters \<open>z\<close>, \<open>sendMessage\<close> returns all 5001 of them and \<open>getAIResponse\<close>
  passes them on as the message: the text is neither cut nor followed by a notice, and it
  is not what \<open>validateResponse\<close> would make of it.
\<close>

theorem long_answer_claim_counterexample:
  "length (replicate 5001 (0x7A :: 16 word)) > 5000
   \<and> sm_message (fst (sendMessage config_with_key
         (call_with (answering (replicate 5001 0x7A))) fresh_state (js ''hello'')))
       = Some (replicate 5001 0x7A)
   \<and> message (fst (getAIResponse toLowerCaseLatin1 config_with_key
         (call_with (answering (replicate 5001 0x7A))) fresh_state (js ''hello'')))
       = Some (replicate 5001 0x7A)
   \<and> validateResponse (replicate 5001 0x7A) \<noteq> replicate 5001 0x7A"
proof -
  have sent_on: "sm_message (fst (sendMessage config_with_key
         (call_with (answering (replicate 5001 0x7A))) fresh_state (js ''hello'')))
       = Some (replicate 5001 0x7A)"
    by (simp add: sendMessage_def checkRateLimit_def oneMinute_def Let_def)
  have passed_on: "message (fst (getAIResponse toLowerCaseLatin1 config_with_key
         (call_with (answering (replicate 5001 0x7A))) fresh_state (js ''hello'')))
       = Some (replicate 5001 0x7A)"
    by (simp add: getAIResponse_unfold checkRateLimit_def oneMinute_def Let_def)
  have "length (validateResponse (replicate 5001 0x7A)) \<noteq> length (replicate 5001 (0x7A :: 16 word))"
    by (simp add: validateResponse_def js_def)
  then have replaced: "validateResponse (replicate 5001 0x7A) \<noteq> replicate 5001 0x7A"
    by (rule contrapos_nn) (simp only:)
  show ?thesis
    using sent_on passed_on replaced by simp
qed

text \<open>
  C7, amended. The upstream client puts no bound on the answer. Whenever the rate
  limiter permits the call and the upstream answers with a status that is ok and a body
  whose first content block has a text, \<open>sendMessage\<close> returns that text as it came,
  whatever its length, and \<open>getAIResponse\<close> passes it on unchanged as the message,
  tagged \<open>claude\<close>: a text of more than 5000 code units passes through whole, as
  does one of at most 5000. The helper \<open>validateResponse\<close>, which no path calls,
  would on its own replace a text of more than 5000 code units by the fixed notice
  \<open>Response was too long. Please ask a more specific question.\<close> (it does not cut
  the text) and return a shorter one unchanged.
\<close>

theorem upstream_answer_passes_unbounded:
  "(permitted (fst (checkRateLimit (clock_limit w) (rateLimitTracker st)))
      \<and> upstream w = Resolved r \<and> ok r \<and> json r = Data (Some (Block (Some text) # blocks))
      \<longrightarrow>
        fst (sendMessage cfg w st userMessage)
          = \<lparr>sm_message = Some text, sm_success = True, sm_fallback = False\<rparr>
        \<and> fst (getAIResponse toLowerCase cfg w st userMessage)
          = \<lparr>message = Some text, actions = [], source = Some claude\<rparr>)
   \<and> (length response > 5000 \<longrightarrow>
        validateResponse response
          = js ''Response was too long. Please ask a more specific question.'')
   \<and> (length response \<le> 5000 \<longrightarrow> validateResponse response = response)"
proof -
  have through:
    "fst (sendMessage cfg w st userMessage)
       = \<lparr>sm_message = Some text, sm_success = True, sm_fallback = False\<rparr>
     \<and> fst (getAIResponse toLowerCase cfg w st userMessage)
       = \<lparr>message = Some text, actions = [], source = Some claude\<rparr>"
    if go: "permitted (fst (checkRateLimit (clock_limit w) (rateLimitTracker st)))"
      and up: "upstream w = Resolved r" and fine: "ok r"
      and body: "json r = Data (Some (Block (Some text) # blocks))"
  proof -
    have "answer_of (upstream w) = Inr (Some text)"
      using up fine body by simp
    then show ?thesis
      using sendMessage_answered [OF go] getAIResponse_answered [OF go] by simp
  qed
  show ?thesis
    using through validateResponse_cases [of response] by blast
qed

theorem upstream_answer_passes_unbounded_witness:
  "permitted (fst (checkRateLimit (clock_limit (call_with (answering (replicate 5001 0x7A))))
                     (rateLimitTracker fresh_state)))
   \<and> length (replicate 5001 (0x7A :: 16 word)) > 5000
   \<and> fst (getAIResponse toLowerCaseLatin1 config_with_key
            (call_with (answering (replicate 5001 0x7A))) fresh_state (js ''hello''))
       = \<lparr>message = Some (replicate 5001 0x7A), actions = [], source = Some claude\<rparr>
   \<and> validateResponse (replicate 5001 0x7A)
       = js ''Response was too long. Please ask a more specific question.''
   \<and> length (js ''short answer'') \<le> 5000
   \<and> validateResponse (js ''short answer'') = js ''short answer''"
proof -
  let ?long = "replicate 5001 (0x7A :: 16 word)"
  have go: "permitted (fst (checkRateLimit (clock_limit (call_with (answering ?long)))
                              (rateLimitTracker fresh_state)))"
    by (simp add: checkRateLimit_def oneMinute_def Let_def)
  have long: "length ?long > 5000"
    by simp
  have short: "length (js ''short answer'') \<le> 5000"
    by (simp add: js_def)
  have shape: "upstream (call_with (answering ?long))
                 = Resolved \<lparr>ok = True, status = 200, statusText = js ''OK'',
                             json = Data (Some [Block (Some ?long)])\<rparr>
               \<and> ok \<lparr>ok = True, status = 200, statusText = js ''OK'',
                       json = Data (Some [Block (Some ?long)])\<rparr>
               \<and> json \<lparr>ok = True, status = 200, statusText = js ''OK'',
                         json = Data (Some [Block (Some ?long)])\<rparr>
                   = Data (Some (Block (Some ?long) # []))"
    by simp
  from upstream_answer_passes_unbounded
         [of "call_with (answering ?long)" fresh_state
             "\<lparr>ok = True, status = 200, statusText = js ''OK'', json = Data (Some [Block (Some ?long)])\<rparr>"
             ?long "[]" config_with_key "js ''hello''" toLowerCaseLatin1 ?long]
       go shape long
  have passed: "fst (getAIResponse toLowerCaseLatin1 config_with_key
                  (call_with (answering ?long)) fresh_state (js ''hello''))
                = \<lparr>message = Some ?long, actions = [], source = Some claude\<rparr>"
    and replaced: "validateResponse ?long
                = js ''Response was too long. Please ask a more specific question.''"
    by blast+
  from upstream_answer_passes_unbounded
         [where response = "js ''short answer''" and toLowerCase = toLowerCaseLatin1] short
  have kept: "validateResponse (js ''short answer'') = js ''short answer''"
    by blast
  show ?thesis
    by (intro conjI) (fact go long passed replaced short kept)+
qed

section \<open>The chat handler\<close>

lemma getAIResponse_answer:
  "fst (getAIResponse toLowerCase cfg w st userMessage) = getFallbackResponse toLowerCase userMessage
   \<or> (\<exists>text. answer_of (upstream w) = Inr text
         \<and> fst (getAIResponse toLowerCase cfg w st userMessage)
             = \<lparr>message = text, actions = [], source = Some claude\<rparr>)"
  by (auto simp: getAIResponse_unfold split: prod.splits sum.splits)

lemma getAIResponse_actions: "actions (fst (getAIResponse toLowerCase cfg w st userMessage)) = []"
  using getAIResponse_answer [of toLowerCase cfg w st userMessage]
    getFallbackResponse_cases [of toLowerCase userMessage]
  by auto

lemma getAIResponse_source:
  "source (fst (getAIResponse toLowerCase cfg w st userMessage)) = Some claude
   \<or> source (fst (getAIResponse toLowerCase cfg w st userMessage)) = Some fallback"
  using getAIResponse_answer [of toLowerCase cfg w st userMessage]
    getFallbackResponse_source [of toLowerCase userMessage]
  by auto

lemma getAIResponse_fallback_text:
  assumes "source (fst (getAIResponse toLowerCase cfg w st userMessage)) = Some fallback"
  shows "\<exists>text. message (fst (getAIResponse toLowerCase cfg w st userMessage)) = Some text \<and> text \<noteq> []"
  using assms getAIResponse_answer [of toLowerCase cfg w st userMessage]
    getFallbackResponse_message [of toLowerCase userMessage]
  by auto

lemma getAIResponse_claude_text:
  assumes "source (fst (getAIResponse toLowerCase cfg w st userMessage)) = Some claude"
  shows "answer_of (upstream w) = Inr (message (fst (getAIResponse toLowerCase cfg w st userMessage)))"
  using assms getAIResponse_answer [of toLowerCase cfg w st userMessage]
    getFallbackResponse_source [of toLowerCase userMessage]
  by auto

text \<open>The page after a call that was not blank, in terms of what \<open>getAIResponse\<close> gave.\<close>

lemma handleSendMessage_unfold:
  assumes "trim (inputMessage ui) \<noteq> []"
  shows "fst (handleSendMessage toLowerCase cfg w (ui, st)) =
           ui\<lparr>messages := messages ui @
                  [\<lparr>chat_id = clock_user w, chat_type = user_type,
                    chat_text = Some (inputMessage ui), chat_timestamp = clock_user w,
                    chat_source = None\<rparr>,
                   \<lparr>chat_id = clock_bot w + 1, chat_type = bot_type,
                    chat_text = message (fst (getAIResponse toLowerCase cfg w st (inputMessage ui))),
                    chat_timestamp = clock_bot w,
                    chat_source = source (fst (getAIResponse toLowerCase cfg w st (inputMessage ui)))\<rparr>],
                inputMessage := [], isTyping := False\<rparr>"
proof -
  obtain r st' where run: "getAIResponse toLowerCase cfg w st (inputMessage ui) = (r, st')"
    by (cases "getAIResponse toLowerCase cfg w st (inputMessage ui)")
  have "actions r = []"
    using getAIResponse_actions [of toLowerCase cfg w st "inputMessage ui"] run by simp
  moreover have "source r = Some claude \<or> source r = Some fallback"
    using getAIResponse_source [of toLowerCase cfg w st "inputMessage ui"] run by simp
  ultimately show ?thesis
    using assms run
    by (auto simp: handleSendMessage_def handleSendMessage_reply_def Let_def)
qed

lemma errorAnswer_not_empty: "errorAnswer \<noteq> []"
  by (simp add: errorAnswer_def js_def)

lemma handleSendMessage_reply_rejected:
  "messages (handleSendMessage_reply now (Inl e) ui) =
     messages ui @ [\<lparr>chat_id = now + 1, chat_type = bot_type, chat_text = Some errorAnswer,
                     chat_timestamp = now, chat_source = Some error\<rparr>]"
  by (simp add: handleSendMessage_reply_def Let_def)

text \<open>
  C1, as the specification states it, fails. On an input of three blanks the handler returns at
  its first line and the page gets no message at all. On the input \<open>hello\<close>, when the
  upstream answers with an empty text, the reply is tagged \<open>claude\<close> and its message is
  the empty string.
\<close>

theorem handleSendMessage_claim_counterexample:
  "messages (fst (handleSendMessage toLowerCaseLatin1 config_with_key (call_with (answering (js ''Hi there'')))
                    (empty_page (js ''   ''), fresh_state))) = []
   \<and> map chat_text (messages (fst (handleSendMessage toLowerCaseLatin1 config_with_key (call_with (answering []))
                    (empty_page (js ''hello''), fresh_state))))
       = [Some (js ''hello''), Some []]
   \<and> map chat_source (messages (fst (handleSendMessage toLowerCaseLatin1 config_with_key (call_with (answering []))
                    (empty_page (js ''hello''), fresh_state))))
       = [None, Some claude]"
proof -
  have blank: "trim (js ''   '') = []"
    by (simp add: trim_def isWhiteSpace_def js_def)
  have said: "trim (js ''hello'') \<noteq> []"
    by (simp add: trim_def isWhiteSpace_def js_def)
  have answer: "fst (getAIResponse toLowerCaseLatin1 config_with_key (call_with (answering [])) fresh_state
                       (js ''hello''))
                = \<lparr>message = Some [], actions = [], source = Some claude\<rparr>"
    by (simp add: getAIResponse_unfold checkRateLimit_def oneMinute_def Let_def)
  have first: "messages (fst (handleSendMessage toLowerCaseLatin1 config_with_key
                  (call_with (answering (js ''Hi there''))) (empty_page (js ''   ''), fresh_state)))
               = []"
    by (simp add: handleSendMessage_def blank)
  have "trim (inputMessage (empty_page (js ''hello''))) \<noteq> []"
    using said by simp
  from handleSendMessage_unfold [OF this, of toLowerCaseLatin1 config_with_key "call_with (answering [])" fresh_state]
  have second: "messages (fst (handleSendMessage toLowerCaseLatin1 config_with_key (call_with (answering []))
                    (empty_page (js ''hello''), fresh_state)))
       = [\<lparr>chat_id = 5000, chat_type = user_type, chat_text = Some (js ''hello''),
           chat_timestamp = 5000, chat_source = None\<rparr>,
          \<lparr>chat_id = 5301, chat_type = bot_type, chat_text = Some [],
           chat_timestamp = 5300, chat_source = Some claude\<rparr>]"
    by (simp add: answer)
  show ?thesis
    by (simp add: first second)
qed

text \<open>
  C1, amended. On a blank input \<open>handleSendMessage\<close> returns with the page and the
  state as they were: it produces no result. On every other input a completed call
  appends the user's message and exactly one reply. The reply is tagged \<open>claude\<close> (the
  model) or \<open>fallback\<close>; a fallback reply has a text that is present and not empty,
  and a \<open>claude\<close> reply carries the text of the first content block of the upstream
  answer as it came, which may be empty or missing. No error escapes: every failure
  inside \<open>sendMessage\<close> ends in a fallback reply, and were the awaited promise rejected,
  the \<open>catch\<close> block would append exactly one reply tagged \<open>error\<close> with a fixed text
  that is not empty.
\<close>

theorem handleSendMessage_one_reply:
  "(trim (inputMessage ui) = [] \<longrightarrow> handleSendMessage toLowerCase cfg w (ui, st) = (ui, st))
   \<and> (trim (inputMessage ui) \<noteq> [] \<longrightarrow>
        (\<exists>b. messages (fst (handleSendMessage toLowerCase cfg w (ui, st)))
                = messages ui @
                    [\<lparr>chat_id = clock_user w, chat_type = user_type,
                      chat_text = Some (inputMessage ui), chat_timestamp = clock_user w,
                      chat_source = None\<rparr>, b]
              \<and> chat_type b = bot_type
              \<and> (chat_source b = Some claude \<or> chat_source b = Some fallback)
              \<and> (chat_source b = Some fallback \<longrightarrow>
                    (\<exists>text. chat_text b = Some text \<and> text \<noteq> []))
              \<and> (chat_source b = Some claude \<longrightarrow> answer_of (upstream w) = Inr (chat_text b)))
        \<and> isTyping (fst (handleSendMessage toLowerCase cfg w (ui, st))) = False)
   \<and> (\<exists>b. messages (handleSendMessage_reply now (Inl e) ui) = messages ui @ [b]
             \<and> chat_type b = bot_type \<and> chat_source b = Some error
             \<and> (\<exists>text. chat_text b = Some text \<and> text \<noteq> []))"
proof -
  have blank: "handleSendMessage toLowerCase cfg w (ui, st) = (ui, st)" if "trim (inputMessage ui) = []"
    using that by (simp add: handleSendMessage_def)
  have reply: "\<exists>b. messages (fst (handleSendMessage toLowerCase cfg w (ui, st)))
                = messages ui @
                    [\<lparr>chat_id = clock_user w, chat_type = user_type,
                      chat_text = Some (inputMessage ui), chat_timestamp = clock_user w,
                      chat_source = None\<rparr>, b]
              \<and> chat_type b = bot_type
              \<and> (chat_source b = Some claude \<or> chat_source b = Some fallback)
              \<and> (chat_source b = Some fallback \<longrightarrow>
                    (\<exists>text. chat_text b = Some text \<and> text \<noteq> []))
              \<and> (chat_source b = Some claude \<longrightarrow> answer_of (upstream w) = Inr (chat_text b))"
    and typing: "isTyping (fst (handleSendMessage toLowerCase cfg w (ui, st))) = False"
    if said: "trim (inputMessage ui) \<noteq> []"
  proof -
    let ?r = "fst (getAIResponse toLowerCase cfg w st (inputMessage ui))"
    let ?b = "\<lparr>chat_id = clock_bot w + 1, chat_type = bot_type, chat_text = message ?r,
               chat_timestamp = clock_bot w, chat_source = source ?r\<rparr>"
    have page: "messages (fst (handleSendMessage toLowerCase cfg w (ui, st)))
                = messages ui @
                    [\<lparr>chat_id = clock_user w, chat_type = user_type,
                      chat_text = Some (inputMessage ui), chat_timestamp = clock_user w,
                      chat_source = None\<rparr>, ?b]"
      by (simp add: handleSendMessage_unfold [OF said])
    have tag: "chat_source ?b = Some claude \<or> chat_source ?b = Some fallback"
      using getAIResponse_source [of toLowerCase cfg w st "inputMessage ui"] by simp
    have canned: "\<exists>text. chat_text ?b = Some text \<and> text \<noteq> []"
      if "chat_source ?b = Some fallback"
      using that getAIResponse_fallback_text [of toLowerCase cfg w st "inputMessage ui"] by simp
    have model: "answer_of (upstream w) = Inr (chat_text ?b)"
      if "chat_source ?b = Some claude"
      using that getAIResponse_claude_text [of toLowerCase cfg w st "inputMessage ui"] by simp
    have kind: "chat_type ?b = bot_type"
      by simp
    from page kind tag canned model
    show "\<exists>b. messages (fst (handleSendMessage toLowerCase cfg w (ui, st)))
                = messages ui @
                    [\<lparr>chat_id = clock_user w, chat_type = user_type,
                      chat_text = Some (inputMessage ui), chat_timestamp = clock_user w,
                      chat_source = None\<rparr>, b]
              \<and> chat_type b = bot_type
              \<and> (chat_source b = Some claude \<or> chat_source b = Some fallback)
              \<and> (chat_source b = Some fallback \<longrightarrow>
                    (\<exists>text. chat_text b = Some text \<and> text \<noteq> []))
              \<and> (chat_source b = Some claude \<longrightarrow> answer_of (upstream w) = Inr (chat_text b))"
      by blast
    show "isTyping (fst (handleSendMessage toLowerCase cfg w (ui, st))) = False"
      by (simp add: handleSendMessage_unfold [OF said])
  qed
  have rejected: "\<exists>b. messages (handleSendMessage_reply now (Inl e) ui) = messages ui @ [b]
             \<and> chat_type b = bot_type \<and> chat_source b = Some error
             \<and> (\<exists>text. chat_text b = Some text \<and> text \<noteq> [])"
    using errorAnswer_not_empty by (simp add: handleSendMessage_reply_rejected)
  from blank reply typing rejected show ?thesis
    by blast
qed

theorem handleSendMessage_one_reply_witness:
  "trim (inputMessage (empty_page (js ''hello''))) \<noteq> []
   \<and> length (messages (fst (handleSendMessage toLowerCaseLatin1 config_with_key (call_with unauthorized)
                              (empty_page (js ''hello''), fresh_state)))) = 2
   \<and> isTyping (fst (handleSendMessage toLowerCaseLatin1 config_with_key (call_with unauthorized)
                      (empty_page (js ''hello''), fresh_state))) = False
   \<and> trim (inputMessage (empty_page (js ''  ''))) = []
   \<and> handleSendMessage toLowerCaseLatin1 config_with_key (call_with unauthorized)
         (empty_page (js ''  ''), fresh_state)
       = (empty_page (js ''  ''), fresh_state)"
proof -
  have said: "trim (inputMessage (empty_page (js ''hello''))) \<noteq> []"
    by (simp add: trim_def isWhiteSpace_def js_def)
  have blank: "trim (inputMessage (empty_page (js ''  ''))) = []"
    by (simp add: trim_def isWhiteSpace_def js_def)
  from handleSendMessage_one_reply
         [of "empty_page (js ''hello'')" toLowerCaseLatin1 config_with_key "call_with unauthorized"
             fresh_state]
       said
  obtain b where "messages (fst (handleSendMessage toLowerCaseLatin1 config_with_key (call_with unauthorized)
                              (empty_page (js ''hello''), fresh_state)))
                  = messages (empty_page (js ''hello'')) @
                      [\<lparr>chat_id = clock_user (call_with unauthorized), chat_type = user_type,
                        chat_text = Some (inputMessage (empty_page (js ''hello''))),
                        chat_timestamp = clock_user (call_with unauthorized),
                        chat_source = None\<rparr>, b]"
    and typing: "isTyping (fst (handleSendMessage toLowerCaseLatin1 config_with_key (call_with unauthorized)
                      (empty_page (js ''hello''), fresh_state))) = False"
    by blast
  then have two: "length (messages (fst (handleSendMessage toLowerCaseLatin1 config_with_key (call_with unauthorized)
                              (empty_page (js ''hello''), fresh_state)))) = 2"
    by simp
  from handleSendMessage_one_reply
         [of "empty_page (js ''  '')" toLowerCaseLatin1 config_with_key "call_with unauthorized"
             fresh_state]
       blank
  have unchanged: "handleSendMessage toLowerCaseLatin1 config_with_key (call_with unauthorized)
                   (empty_page (js ''  ''), fresh_state)
                 = (empty_page (js ''  ''), fresh_state)"
    by blast
  show ?thesis
    by (intro conjI) (fact said two typing blank unchanged)+
qed

end
